theory Spec2Isabelle
  imports Complex_Main
begin

section \<open>Numbers of the source language\<close>

text \<open>
  The program is JavaScript: a number is an IEEE binary64 value, that is a finite value,
  one of the two infinities, or NaN. A finite number is modelled by the real number it
  denotes, and the two zeros are one value. Comparisons and arithmetic with the
  infinities and with NaN are written out as the language defines them: every comparison
  with NaN is false, and a division by zero raises nothing but yields an infinity or NaN.
  The two zeros compare equal and differ in the program only as a divisor; the one divisor
  of the program, that of the slope, is shown below to be positive.
\<close>

datatype jsnum = Num real | PosInfinity | NegInfinity | NaN

fun js_lt :: "jsnum \<Rightarrow> jsnum \<Rightarrow> bool" where
  "js_lt NaN _ = False"
| "js_lt _ NaN = False"
| "js_lt (Num a) (Num b) = (a < b)"
| "js_lt NegInfinity NegInfinity = False"
| "js_lt NegInfinity _ = True"
| "js_lt _ NegInfinity = False"
| "js_lt PosInfinity _ = False"
| "js_lt _ PosInfinity = True"

fun js_le :: "jsnum \<Rightarrow> jsnum \<Rightarrow> bool" where
  "js_le NaN _ = False"
| "js_le _ NaN = False"
| "js_le (Num a) (Num b) = (a \<le> b)"
| "js_le NegInfinity _ = True"
| "js_le _ PosInfinity = True"
| "js_le PosInfinity _ = False"
| "js_le _ NegInfinity = False"

definition js_gt :: "jsnum \<Rightarrow> jsnum \<Rightarrow> bool" where
  "js_gt a b = js_lt b a"

definition js_ge :: "jsnum \<Rightarrow> jsnum \<Rightarrow> bool" where
  "js_ge a b = js_le b a"

text \<open>
  The result of an operation on finite numbers is the exact result rounded to the nearest
  binary64 value, to the one with the even significand when two are equally near.
  Every finite binary64 value is an integer multiple of \<open>2\<^sup>-\<^sup>1\<^sup>0\<^sup>7\<^sup>4\<close>. For a real \<open>x\<close>,
  \<open>t\<close> is its magnitude in that unit; the values near \<open>t\<close> are the multiples of
  \<open>2\<^sup>k\<close>, where \<open>k\<close> is the number of binary digits of the integer part of \<open>t\<close>
  in excess of the 53 digits of a significand. A rounded magnitude of \<open>2\<^sup>1\<^sup>0\<^sup>2\<^sup>4\<close> or more
  overflows to an infinity.
\<close>

definition roundHalfEven :: "real \<Rightarrow> int" where
  "roundHalfEven t =
     (let f = \<lfloor>t\<rfloor>; r = t - of_int f
      in if r < 1 / 2 then f else if 1 / 2 < r then f + 1 else if even f then f else f + 1)"

function bitLength :: "int \<Rightarrow> nat" where
  "bitLength n = (if n \<le> 0 then 0 else Suc (bitLength (n div 2)))"
  by pat_completeness auto
termination
  by (relation "measure nat") auto

declare bitLength.simps [simp del]

definition roundFinite :: "real \<Rightarrow> real" where
  "roundFinite x =
     (let t = \<bar>x\<bar> * 2 ^ 1074;
          k = bitLength \<lfloor>t\<rfloor> - 53
      in sgn x * (of_int (roundHalfEven (t / 2 ^ k)) * 2 ^ k / 2 ^ 1074))"

definition round64 :: "real \<Rightarrow> jsnum" where
  "round64 x =
     (let r = roundFinite x
      in if 2 ^ 1024 \<le> r then PosInfinity
         else if r \<le> - (2 ^ 1024) then NegInfinity
         else Num r)"

text \<open>The infinity of the sign of \<open>s\<close>, or NaN when \<open>s\<close> is zero.\<close>

definition signedInfinity :: "real \<Rightarrow> jsnum" where
  "signedInfinity s = (if s = 0 then NaN else if 0 < s then PosInfinity else NegInfinity)"

fun js_neg :: "jsnum \<Rightarrow> jsnum" where
  "js_neg (Num a) = Num (- a)"
| "js_neg PosInfinity = NegInfinity"
| "js_neg NegInfinity = PosInfinity"
| "js_neg NaN = NaN"

fun js_add :: "jsnum \<Rightarrow> jsnum \<Rightarrow> jsnum" where
  "js_add NaN _ = NaN"
| "js_add _ NaN = NaN"
| "js_add (Num a) (Num b) = round64 (a + b)"
| "js_add PosInfinity NegInfinity = NaN"
| "js_add NegInfinity PosInfinity = NaN"
| "js_add PosInfinity _ = PosInfinity"
| "js_add _ PosInfinity = PosInfinity"
| "js_add NegInfinity _ = NegInfinity"
| "js_add _ NegInfinity = NegInfinity"

definition js_sub :: "jsnum \<Rightarrow> jsnum \<Rightarrow> jsnum" where
  "js_sub a b = js_add a (js_neg b)"

fun js_mul :: "jsnum \<Rightarrow> jsnum \<Rightarrow> jsnum" where
  "js_mul NaN _ = NaN"
| "js_mul _ NaN = NaN"
| "js_mul (Num a) (Num b) = round64 (a * b)"
| "js_mul (Num a) PosInfinity = signedInfinity a"
| "js_mul (Num a) NegInfinity = signedInfinity (- a)"
| "js_mul PosInfinity (Num b) = signedInfinity b"
| "js_mul NegInfinity (Num b) = signedInfinity (- b)"
| "js_mul PosInfinity PosInfinity = PosInfinity"
| "js_mul NegInfinity NegInfinity = PosInfinity"
| "js_mul PosInfinity NegInfinity = NegInfinity"
| "js_mul NegInfinity PosInfinity = NegInfinity"

fun js_div :: "jsnum \<Rightarrow> jsnum \<Rightarrow> jsnum" where
  "js_div NaN _ = NaN"
| "js_div _ NaN = NaN"
| "js_div (Num a) (Num b) = (if b = 0 then signedInfinity a else round64 (a / b))"
| "js_div (Num a) _ = Num 0"
| "js_div PosInfinity (Num b) = (if 0 \<le> b then PosInfinity else NegInfinity)"
| "js_div NegInfinity (Num b) = (if 0 \<le> b then NegInfinity else PosInfinity)"
| "js_div _ _ = NaN"

text \<open>
  A numeric literal of the source denotes the binary64 value nearest to the decimal that
  is written. For a literal that is an integer this is the integer itself; the other
  literals of the source are the following values.
\<close>

definition lit_0_1 :: real where
  "lit_0_1 = 3602879701896397 / 36028797018963968"

definition lit_97_8 :: real where
  "lit_97_8 = 6882063180575539 / 70368744177664"

definition lit_99_1 :: real where
  "lit_99_1 = 3486771274003251 / 35184372088832"

definition lit_100_4 :: real where
  "lit_100_4 = 3532510957718733 / 35184372088832"

definition lit_103_1 :: real where
  "lit_103_1 = 3627508762358579 / 35184372088832"

section \<open>Classification of a single reading\<close>

text \<open>
  The four classifiers and the four risk assessments of the class
  \<^verbatim>\<open>PredictiveAnalytics\<close>. Each is a chain of \<^verbatim>\<open>if (...) return\<close>
  statements, so the first condition that holds decides. None of them has a
  \<^verbatim>\<open>throw\<close>, and a comparison of numbers raises nothing, so the result is a plain
  string. \<^verbatim>\<open>analyzeCurrentVitals\<close> stores the result of a classifier as the
  \<^verbatim>\<open>status\<close> of a vital sign and the result of its risk assessment as the
  \<^verbatim>\<open>risk\<close>; these are the band and the risk of a reading.
\<close>

definition classifyBloodPressure :: "jsnum \<Rightarrow> jsnum \<Rightarrow> string" where
  "classifyBloodPressure systolic diastolic =
     (if js_ge systolic (Num 180) \<or> js_ge diastolic (Num 120) then ''crisis''
      else if js_ge systolic (Num 130) \<or> js_ge diastolic (Num 80) then ''high''
      else if js_ge systolic (Num 120) \<and> js_lt systolic (Num 130) \<and> js_lt diastolic (Num 80)
        then ''elevated''
      else ''normal'')"

definition classifyHeartRate :: "jsnum \<Rightarrow> string" where
  "classifyHeartRate heartRate =
     (if js_lt heartRate (Num 60) then ''bradycardia''
      else if js_gt heartRate (Num 100) then ''tachycardia''
      else ''normal'')"

definition classifyTemperature :: "jsnum \<Rightarrow> string" where
  "classifyTemperature temperature =
     (if js_ge temperature (Num lit_103_1) then ''highFever''
      else if js_ge temperature (Num lit_99_1) then ''fever''
      else ''normal'')"

definition classifyOxygenSaturation :: "jsnum \<Rightarrow> string" where
  "classifyOxygenSaturation spo2 =
     (if js_lt spo2 (Num 90) then ''critical''
      else if js_lt spo2 (Num 95) then ''low''
      else ''normal'')"

definition assessBloodPressureRisk :: "jsnum \<Rightarrow> jsnum \<Rightarrow> string" where
  "assessBloodPressureRisk systolic diastolic =
     (if js_ge systolic (Num 180) \<or> js_ge diastolic (Num 120) then ''critical''
      else if js_ge systolic (Num 160) \<or> js_ge diastolic (Num 100) then ''high''
      else if js_ge systolic (Num 140) \<or> js_ge diastolic (Num 90) then ''moderate''
      else if js_ge systolic (Num 120) \<or> js_ge diastolic (Num 80) then ''elevated''
      else ''low'')"

definition assessHeartRateRisk :: "jsnum \<Rightarrow> string" where
  "assessHeartRateRisk heartRate =
     (if js_lt heartRate (Num 40) \<or> js_gt heartRate (Num 140) then ''critical''
      else if js_lt heartRate (Num 50) \<or> js_gt heartRate (Num 120) then ''high''
      else if js_lt heartRate (Num 60) \<or> js_gt heartRate (Num 100) then ''moderate''
      else ''low'')"

definition assessTemperatureRisk :: "jsnum \<Rightarrow> string" where
  "assessTemperatureRisk temperature =
     (if js_ge temperature (Num 105) then ''critical''
      else if js_ge temperature (Num 103) then ''high''
      else if js_ge temperature (Num lit_100_4) then ''moderate''
      else ''low'')"

definition assessOxygenRisk :: "jsnum \<Rightarrow> string" where
  "assessOxygenRisk spo2 =
     (if js_lt spo2 (Num 85) then ''critical''
      else if js_lt spo2 (Num 90) then ''high''
      else if js_lt spo2 (Num 95) then ''moderate''
      else ''low'')"

section \<open>Severity orders\<close>

text \<open>
  The position of a label in a severity order, and the comparison of two labels by
  position. The band order is normal, elevated, high, crisis; the risk order is low,
  elevated, moderate, high, critical. A label that is not in the order has no position and
  compares with nothing.
\<close>

fun ordinal :: "string list \<Rightarrow> string \<Rightarrow> nat option" where
  "ordinal [] l = None"
| "ordinal (x # xs) l = (if x = l then Some 0 else map_option Suc (ordinal xs l))"

definition bandOrder :: "string list" where
  "bandOrder = [''normal'', ''elevated'', ''high'', ''crisis'']"

definition riskOrder :: "string list" where
  "riskOrder = [''low'', ''elevated'', ''moderate'', ''high'', ''critical'']"

definition severityLeq :: "string list \<Rightarrow> string \<Rightarrow> string \<Rightarrow> bool" where
  "severityLeq order a b =
     (case (ordinal order a, ordinal order b) of
        (Some i, Some j) \<Rightarrow> i \<le> j
      | _ \<Rightarrow> False)"

section \<open>Trend of a series\<close>

text \<open>
  \<^verbatim>\<open>calculateTrend(data, key)\<close> reads the property \<^verbatim>\<open>key\<close> of every object of
  \<^verbatim>\<open>data\<close>, drops the values that are \<^verbatim>\<open>null\<close> or \<^verbatim>\<open>undefined\<close>, and fits
  a line through what is left. An object is a map from property names to values; reading
  a property that is absent gives \<^verbatim>\<open>undefined\<close>. The values of a series are numbers,
  \<^verbatim>\<open>null\<close> or \<^verbatim>\<open>undefined\<close>; \<open>toNumber\<close> is the conversion the operators
  \<^verbatim>\<open>+\<close>, \<^verbatim>\<open>-\<close> and \<^verbatim>\<open>*\<close> apply to such an operand.
\<close>

datatype jsval = Null | Undefined | Number jsnum

definition getProp :: "(string \<rightharpoonup> jsval) \<Rightarrow> string \<Rightarrow> jsval" where
  "getProp d key = (case d key of None \<Rightarrow> Undefined | Some v \<Rightarrow> v)"

fun toNumber :: "jsval \<Rightarrow> jsnum" where
  "toNumber (Number y) = y"
| "toNumber Null = Num 0"
| "toNumber Undefined = NaN"

text \<open>
  The object that is returned. The early return has no property \<^verbatim>\<open>change\<close>, which is
  \<open>None\<close> here.
\<close>

record trend =
  direction :: string
  slope :: jsnum
  change :: "jsnum option"

text \<open>The constant \<^verbatim>\<open>values\<close>: the property of every object, filtered.\<close>

definition trendValues :: "(string \<rightharpoonup> jsval) list \<Rightarrow> string \<Rightarrow> jsval list" where
  "trendValues data key =
     filter (\<lambda>v. v \<noteq> Null \<and> v \<noteq> Undefined) (map (\<lambda>d. getProp d key) data)"

text \<open>The constant \<^verbatim>\<open>x\<close>: \<^verbatim>\<open>Array.from({ length: n }, (_, i) => i)\<close>.\<close>

definition indices :: "nat \<Rightarrow> jsnum list" where
  "indices n = map (\<lambda>i. Num (real i)) [0..<n]"

text \<open>The four \<^verbatim>\<open>reduce\<close> calls, each a left fold that starts from 0.\<close>

definition sumX :: "nat \<Rightarrow> jsnum" where
  "sumX n = foldl (\<lambda>a b. js_add a b) (Num 0) (indices n)"

definition sumY :: "jsval list \<Rightarrow> jsnum" where
  "sumY y = foldl (\<lambda>a b. js_add a (toNumber b)) (Num 0) y"

definition sumXY :: "jsval list \<Rightarrow> jsnum" where
  "sumXY y =
     foldl (\<lambda>sum i. js_add sum (js_mul (indices (length y) ! i) (toNumber (y ! i)))) (Num 0)
       [0..<length y]"

definition sumX2 :: "nat \<Rightarrow> jsnum" where
  "sumX2 n = foldl (\<lambda>sum xi. js_add sum (js_mul xi xi)) (Num 0) (indices n)"

text \<open>The dividend and the divisor of the expression for \<^verbatim>\<open>slope\<close>.\<close>

definition slopeNumerator :: "jsval list \<Rightarrow> jsnum" where
  "slopeNumerator y =
     js_sub (js_mul (Num (real (length y))) (sumXY y)) (js_mul (sumX (length y)) (sumY y))"

definition slopeDenominator :: "nat \<Rightarrow> jsnum" where
  "slopeDenominator n = js_sub (js_mul (Num (real n)) (sumX2 n)) (js_mul (sumX n) (sumX n))"

text \<open>The conditional expression that labels the slope.\<close>

definition trendDirection :: "jsnum \<Rightarrow> string" where
  "trendDirection s =
     (if js_gt s (Num lit_0_1) then ''increasing''
      else if js_lt s (Num (- lit_0_1)) then ''decreasing''
      else ''stable'')"

definition calculateTrend :: "(string \<rightharpoonup> jsval) list \<Rightarrow> string \<Rightarrow> trend" where
  "calculateTrend data key =
     (let values = trendValues data key in
      if length values < 2 then \<lparr>direction = ''stable'', slope = Num 0, change = None\<rparr>
      else
        let n = length values;
            s = js_div (slopeNumerator values) (slopeDenominator n)
        in \<lparr>direction = trendDirection s,
            slope = s,
            change = Some (js_sub (toNumber (values ! (length values - 1)))
                                  (toNumber (values ! 0)))\<rparr>)"

text \<open>
  A series given as a plain list of values is the list of objects that carry each value
  under one key; \<open>numbers\<close> makes finite numbers of reals.
\<close>

definition numbers :: "real list \<Rightarrow> jsval list" where
  "numbers ys = map (\<lambda>r. Number (Num r)) ys"

definition series :: "string \<Rightarrow> jsval list \<Rightarrow> (string \<rightharpoonup> jsval) list" where
  "series key vs = map (\<lambda>v. [key \<mapsto> v]) vs"

text \<open>
  The estimator as the specification writes it,
  \<open>(n \<Sigma>xy - \<Sigma>x \<Sigma>y) / (n \<Sigma>x\<^sup>2 - (\<Sigma>x)\<^sup>2)\<close> with \<open>x\<close> the indices \<open>0..n-1\<close>, in the
  arithmetic of the program: every sum runs from 0 through the list in order, and every
  operation rounds.
\<close>

definition jsSum :: "jsnum list \<Rightarrow> jsnum" where
  "jsSum xs = foldl js_add (Num 0) xs"

definition formulaSlope :: "jsnum list \<Rightarrow> jsnum" where
  "formulaSlope y =
     (let n = length y;
          x = map (\<lambda>i. Num (real i)) [0..<n];
          Sx = jsSum x;
          Sy = jsSum y;
          Sxy = jsSum (map2 js_mul x y);
          Sxx = jsSum (map (\<lambda>xi. js_mul xi xi) x)
      in js_div (js_sub (js_mul (Num (real n)) Sxy) (js_mul Sx Sy))
                (js_sub (js_mul (Num (real n)) Sxx) (js_mul Sx Sx)))"

text \<open>The same estimator over the reals, with no rounding.\<close>

definition olsSlope :: "real list \<Rightarrow> real" where
  "olsSlope y =
     (let n = length y
      in (real n * (\<Sum>i = 0..<n. real i * y ! i) - (\<Sum>i = 0..<n. real i) * (\<Sum>i = 0..<n. y ! i))
         / (real n * (\<Sum>i = 0..<n. real i * real i) - (\<Sum>i = 0..<n. real i) * (\<Sum>i = 0..<n. real i)))"

section \<open>The table of thresholds\<close>

text \<open>
  \<^verbatim>\<open>initializeHealthThresholds\<close> returns an object of objects; a band is a pair of
  numbers (for blood pressure, one pair for each of the two pressures). The properties
  are kept in the order in which the source writes them. No other function of the class
  reads the table.
\<close>

type_synonym range = "real \<times> real"

record pressureRanges =
  systolic :: range
  diastolic :: range

record healthThresholds =
  bloodPressure :: "(string \<times> pressureRanges) list"
  heartRate :: "(string \<times> range) list"
  temperature :: "(string \<times> range) list"
  oxygenSaturation :: "(string \<times> range) list"

definition initializeHealthThresholds :: healthThresholds where
  "initializeHealthThresholds =
     \<lparr>bloodPressure =
        [(''normal'', \<lparr>systolic = (90, 120), diastolic = (60, 80)\<rparr>),
         (''elevated'', \<lparr>systolic = (120, 129), diastolic = (60, 80)\<rparr>),
         (''high'', \<lparr>systolic = (130, 180), diastolic = (80, 120)\<rparr>),
         (''crisis'', \<lparr>systolic = (180, 300), diastolic = (120, 200)\<rparr>)],
      heartRate =
        [(''normal'', (60, 100)),
         (''bradycardia'', (0, 60)),
         (''tachycardia'', (100, 200))],
      temperature =
        [(''normal'', (lit_97_8, 99)),
         (''fever'', (lit_99_1, 103)),
         (''highFever'', (lit_103_1, 106))],
      oxygenSaturation =
        [(''normal'', (95, 100)),
         (''low'', (90, 95)),
         (''critical'', (0, 90))]\<rparr>"

definition systolicBands :: "healthThresholds \<Rightarrow> (string \<times> range) list" where
  "systolicBands t = map (\<lambda>b. (fst b, systolic (snd b))) (bloodPressure t)"

definition diastolicBands :: "healthThresholds \<Rightarrow> (string \<times> range) list" where
  "diastolicBands t = map (\<lambda>b. (fst b, diastolic (snd b))) (bloodPressure t)"

text \<open>
  The table does not say which ends of a range belong to the band. A range \<open>covers\<close>
  a value that belongs to it if both ends are included, and \<open>coversStrictly\<close> a value
  that belongs to it whichever ends are included.
\<close>

definition covers :: "range \<Rightarrow> real \<Rightarrow> bool" where
  "covers r x = (fst r \<le> x \<and> x \<le> snd r)"

definition coversStrictly :: "range \<Rightarrow> real \<Rightarrow> bool" where
  "coversStrictly r x = (fst r < x \<and> x < snd r)"

definition bandsCovering :: "(string \<times> range) list \<Rightarrow> real \<Rightarrow> string list" where
  "bandsCovering bands x = map fst (filter (\<lambda>b. covers (snd b) x) bands)"

definition bandsStrictlyCovering :: "(string \<times> range) list \<Rightarrow> real \<Rightarrow> string list" where
  "bandsStrictlyCovering bands x = map fst (filter (\<lambda>b. coversStrictly (snd b) x) bands)"

text \<open>The ranges of a vital sign by ascending lower end.\<close>

definition ascending :: "(string \<times> range) list \<Rightarrow> range list" where
  "ascending bands = sort_key fst (map snd bands)"

text \<open>
  A list of ranges is contiguous when each range ends where the next begins, and
  separated when each range ends no later than the next begins.
\<close>

fun contiguous :: "range list \<Rightarrow> bool" where
  "contiguous (r1 # r2 # rs) = (snd r1 = fst r2 \<and> contiguous (r2 # rs))"
| "contiguous _ = True"

fun separated :: "range list \<Rightarrow> bool" where
  "separated (r1 # r2 # rs) = (snd r1 \<le> fst r2 \<and> separated (r2 # rs))"
| "separated _ = True"

text \<open>The least and the greatest factor by which rounding changes a number.\<close>

definition ulo :: real where
  "ulo = 1 - 1 / 2 ^ 53"

definition uhi :: real where
  "uhi = 1 + 1 / 2 ^ 53"

section \<open>Facts about the literals and the comparisons\<close>

text \<open>
  Each constant is a 53-bit integer over a power of two and lies within half a unit in
  the last place (strictly) of the decimal written in the source, so it is the binary64
  value the literal denotes.
\<close>

lemma lit_0_1_nearest:
  "lit_0_1 = 7205759403792794 / 2 ^ 56 \<and> \<bar>lit_0_1 - 0.1\<bar> < 1 / 2 ^ 57"
  by (simp add: lit_0_1_def)

lemma lit_97_8_nearest:
  "lit_97_8 = 6882063180575539 / 2 ^ 46 \<and> \<bar>lit_97_8 - 97.8\<bar> < 1 / 2 ^ 47"
  by (simp add: lit_97_8_def)

lemma lit_99_1_nearest:
  "lit_99_1 = 6973542548006502 / 2 ^ 46 \<and> \<bar>lit_99_1 - 99.1\<bar> < 1 / 2 ^ 47"
  by (simp add: lit_99_1_def)

lemma lit_100_4_nearest:
  "lit_100_4 = 7065021915437466 / 2 ^ 46 \<and> \<bar>lit_100_4 - 100.4\<bar> < 1 / 2 ^ 47"
  by (simp add: lit_100_4_def)

lemma lit_103_1_nearest:
  "lit_103_1 = 7255017524717158 / 2 ^ 46 \<and> \<bar>lit_103_1 - 103.1\<bar> < 1 / 2 ^ 47"
  by (simp add: lit_103_1_def)

lemma js_ge_Num [simp]: "js_ge (Num a) (Num b) = (b \<le> a)"
  by (simp add: js_ge_def)

lemma js_gt_Num [simp]: "js_gt (Num a) (Num b) = (b < a)"
  by (simp add: js_gt_def)

lemma js_ge_NaN [simp]: "js_ge NaN b = False" "js_ge a NaN = False"
  by (cases b; simp add: js_ge_def) (cases a; simp add: js_ge_def)

lemma js_gt_NaN [simp]: "js_gt NaN b = False" "js_gt a NaN = False"
  by (cases b; simp add: js_gt_def) (cases a; simp add: js_gt_def)

lemma js_lt_NaN [simp]: "js_lt a NaN = False"
  by (cases a; simp)

lemma js_ge_inf [simp]:
  "js_ge PosInfinity (Num b) = True" "js_ge NegInfinity (Num b) = False"
  by (simp_all add: js_ge_def)

lemma js_gt_inf [simp]:
  "js_gt PosInfinity (Num b) = True" "js_gt NegInfinity (Num b) = False"
  by (simp_all add: js_gt_def)

section \<open>Facts about rounding\<close>

lemma bitLength_pos: "0 < n \<Longrightarrow> 0 < bitLength n"
  by (subst bitLength.simps) simp

lemma bitLength_bounds:
  "0 < n \<Longrightarrow> 2 ^ (bitLength n - 1) \<le> n \<and> n < 2 ^ bitLength n"
proof (induction n rule: bitLength.induct)
  case (1 n)
  show ?case
  proof (cases "n = 1")
    case True
    have "bitLength 1 = 1"
      by (subst bitLength.simps, subst bitLength.simps) simp
    with True show ?thesis by simp
  next
    case False
    with "1.prems" have h: "0 < n div 2" by simp
    have n: "\<not> n \<le> 0" using "1.prems" by simp
    from "1.IH" [OF n h]
    have ih: "2 ^ (bitLength (n div 2) - 1) \<le> n div 2" "n div 2 < 2 ^ bitLength (n div 2)"
      by simp_all
    have b: "bitLength n = Suc (bitLength (n div 2))"
      using n by (subst bitLength.simps) simp
    have p: "0 < bitLength (n div 2)" by (rule bitLength_pos [OF h])
    then obtain j where j: "bitLength (n div 2) = Suc j" by (cases "bitLength (n div 2)") simp_all
    have "2 * 2 ^ j \<le> n" using ih(1) j by simp
    moreover have "n < 2 * 2 ^ Suc j" using ih(2) j by simp
    ultimately show ?thesis by (simp add: b j)
  qed
qed

lemma roundHalfEven_error: "\<bar>of_int (roundHalfEven t) - t\<bar> \<le> 1 / 2"
  unfolding roundHalfEven_def Let_def by (auto simp add: abs_le_iff; linarith)

lemma roundHalfEven_of_int [simp]: "roundHalfEven (of_int z) = z"
  by (simp add: roundHalfEven_def)


lemma roundFinite_zero [simp]: "roundFinite 0 = 0"
  by (simp add: roundFinite_def)

lemma roundFinite_error:
  assumes x: "1 / 4 \<le> x"
  shows "\<bar>roundFinite x - x\<bar> \<le> x / 2 ^ 53"
proof -
  define S :: real where "S = 2 ^ 1074"
  define t where "t = x * S"
  define n where "n = \<lfloor>t\<rfloor>"
  define k where "k = bitLength n - 53"
  define m where "m = roundHalfEven (t / 2 ^ k)"
  have S: "0 < S" by (simp add: S_def)
  have "(2::real) ^ 54 \<le> 2 ^ 1074" by (rule power_increasing) simp_all
  then have S54: "2 ^ 54 \<le> S" by (simp add: S_def)
  have xpos: "0 < x" using x by simp
  have "2 ^ 52 = (1 / 4) * (2::real) ^ 54" by simp
  also have "\<dots> \<le> x * S" using x S54 by (intro mult_mono) simp_all
  finally have t52: "2 ^ 52 \<le> t" by (simp add: t_def)
  then have "of_int (2 ^ 52) \<le> t" by simp
  then have n52: "2 ^ 52 \<le> n" unfolding n_def by (simp only: le_floor_iff)
  then have npos: "0 < n" by (smt (verit) zero_less_power)
  from bitLength_bounds [OF npos]
  have lo: "2 ^ (bitLength n - 1) \<le> n" and hi: "n < 2 ^ bitLength n" by simp_all
  have "(2::int) ^ 52 < 2 ^ bitLength n" using n52 hi by linarith
  then have "52 < bitLength n" by (rule power_less_imp_less_exp [rotated]) simp
  then have kl: "bitLength n - 1 = k + 52" by (simp add: k_def)
  have "of_int n \<le> t" by (simp add: n_def)
  moreover have "(of_int ((2::int) ^ (k + 52)) :: real) \<le> of_int n"
    using lo kl by (simp only: of_int_le_iff)
  ultimately have "(of_int ((2::int) ^ (k + 52)) :: real) \<le> t" by (rule order_trans [rotated])
  then have "(2::real) ^ (k + 52) \<le> t" by simp
  then have k52: "(2::real) ^ k * 2 ^ 52 \<le> t" by (simp add: power_add)
  have err: "\<bar>of_int m - t / 2 ^ k\<bar> \<le> 1 / 2"
    unfolding m_def by (rule roundHalfEven_error)
  have "of_int m * 2 ^ k - t = (of_int m - t / 2 ^ k) * 2 ^ k"
    by (simp add: left_diff_distrib)
  then have "\<bar>of_int m * 2 ^ k - t\<bar> = \<bar>of_int m - t / 2 ^ k\<bar> * 2 ^ k"
    by (simp only: abs_mult) simp
  also have "\<dots> \<le> (1 / 2) * 2 ^ k" using err by (intro mult_right_mono) simp_all
  also have "\<dots> = (2 ^ k * 2 ^ 52) / 2 ^ 53" by simp
  also have "\<dots> \<le> t / 2 ^ 53" using k52 by (intro divide_right_mono) simp_all
  finally have e: "\<bar>of_int m * 2 ^ k - t\<bar> \<le> t / 2 ^ 53" .
  have rf: "roundFinite x = of_int m * 2 ^ k / S"
    using xpos by (simp add: roundFinite_def Let_def m_def k_def n_def t_def S_def)
  have "roundFinite x - x = (of_int m * 2 ^ k - t) / S"
    using S by (simp add: rf t_def diff_divide_distrib)
  then have "\<bar>roundFinite x - x\<bar> = \<bar>of_int m * 2 ^ k - t\<bar> / S"
    using S by simp
  also have "\<dots> \<le> (t / 2 ^ 53) / S" using e S by (intro divide_right_mono) simp_all
  also have "\<dots> = x / 2 ^ 53" using S by (simp add: t_def)
  finally show ?thesis .
qed

lemma roundFinite_of_int:
  assumes z: "\<bar>z\<bar> < 2 ^ 53"
  shows "roundFinite (of_int z) = of_int z"
proof (cases "z = 0")
  case True
  then show ?thesis by simp
next
  case False
  define S :: real where "S = 2 ^ 1074"
  define n :: int where "n = \<bar>z\<bar> * 2 ^ 1074"
  define k where "k = bitLength n - 53"
  have S: "0 < S" by (simp add: S_def)
  have t: "\<bar>of_int z\<bar> * S = of_int n" by (simp add: n_def S_def)
  have npos: "0 < n" using False by (simp add: n_def)
  from bitLength_bounds [OF npos]
  have lo: "2 ^ (bitLength n - 1) \<le> n" by simp
  have "n < 2 ^ 53 * 2 ^ 1074" unfolding n_def using z by (intro mult_strict_right_mono) simp_all
  then have "n < 2 ^ 1127" by (simp add: power_add [symmetric])
  with lo have "(2::int) ^ (bitLength n - 1) < 2 ^ 1127" by linarith
  then have "bitLength n - 1 < 1127" by (rule power_less_imp_less_exp [rotated]) simp
  then have k: "k \<le> 1074" by (simp add: k_def)
  then obtain j where j: "1074 = k + j" by (metis le_Suc_ex)
  have Sk: "S = 2 ^ k * 2 ^ j" unfolding S_def by (subst j) (simp add: power_add)
  have q: "of_int n / 2 ^ k = (of_int (\<bar>z\<bar> * 2 ^ j) :: real)"
  proof -
    have "(of_int n :: real) = \<bar>of_int z\<bar> * (2 ^ k * 2 ^ j)" using t Sk by simp
    then show ?thesis by simp
  qed
  have "roundFinite (of_int z) =
        sgn (of_int z) * (of_int (roundHalfEven (of_int n / 2 ^ k)) * 2 ^ k / S)"
    unfolding roundFinite_def Let_def S_def [symmetric] t k_def by simp
  also have "\<dots> = sgn (of_int z) * (of_int (\<bar>z\<bar> * 2 ^ j) * 2 ^ k / S)"
    by (simp only: q roundHalfEven_of_int)
  also have "\<dots> = sgn (of_int z) * \<bar>of_int z\<bar>"
    by (simp add: Sk)
  also have "\<dots> = of_int z"
    by (simp add: sgn_mult_abs)
  finally show ?thesis .
qed

lemma round64_finite:
  "\<bar>roundFinite x\<bar> < 2 ^ 1024 \<Longrightarrow> round64 x = Num (roundFinite x)"
  by (auto simp add: round64_def Let_def abs_less_iff)

lemma round64_Ints:
  assumes "x \<in> \<int>" and "\<bar>x\<bar> < 2 ^ 53"
  shows "round64 x = Num x"
proof -
  from assms(1) obtain z where x: "x = of_int z" by (auto elim: Ints_cases)
  with assms(2) have "real_of_int \<bar>z\<bar> < of_int (2 ^ 53)" by simp
  then have z: "\<bar>z\<bar> < 2 ^ 53" by (simp only: of_int_less_iff)
  have r: "roundFinite x = x" using roundFinite_of_int [OF z] x by simp
  have "(2::real) ^ 53 \<le> 2 ^ 1024" by (rule power_increasing) simp_all
  with assms(2) have "\<bar>x\<bar> < 2 ^ 1024" by linarith
  then show ?thesis using round64_finite [of x] r by simp
qed

lemma round64_bounds:
  assumes "x = 0 \<or> 1 / 4 \<le> x" and "x \<le> 2 ^ 1000"
  shows "round64 x = Num (roundFinite x) \<and> x * ulo \<le> roundFinite x \<and> roundFinite x \<le> x * uhi"
proof (cases "x = 0")
  case True
  have "round64 0 = Num 0" by (rule round64_Ints) simp_all
  with True show ?thesis by simp
next
  case False
  with assms(1) have x: "1 / 4 \<le> x" by simp
  define e where "e = x / 2 ^ 53"
  have "\<bar>roundFinite x - x\<bar> \<le> e"
    unfolding e_def by (rule roundFinite_error [OF x])
  then have "x - e \<le> roundFinite x" and "roundFinite x \<le> x + e"
    by linarith+
  then have lo: "x - x / 2 ^ 53 \<le> roundFinite x" and hi: "roundFinite x \<le> x + x / 2 ^ 53"
    by (simp_all only: e_def)
  have "x / 2 ^ 53 \<le> x" using x by (simp add: field_simps)
  then have "roundFinite x \<le> 2 * 2 ^ 1000" and "0 \<le> roundFinite x"
    using hi lo assms(2) x by linarith+
  moreover have "(2::real) * 2 ^ 1000 < 2 ^ 1024"
  proof -
    have "(2::real) ^ 1001 < 2 ^ 1024" by (rule power_strict_increasing) simp_all
    then show ?thesis by simp
  qed
  ultimately have "\<bar>roundFinite x\<bar> < 2 ^ 1024" by linarith
  then have "round64 x = Num (roundFinite x)" by (rule round64_finite)
  moreover have "x * ulo \<le> roundFinite x" using lo by (simp add: ulo_def algebra_simps)
  moreover have "roundFinite x \<le> x * uhi" using hi by (simp add: uhi_def algebra_simps)
  ultimately show ?thesis by blast
qed

section \<open>Facts about the sums of the trend\<close>

text \<open>
  The sums of the indices and of their squares are sums of numbers that are not negative,
  so each addition changes the sum by a factor between \<open>ulo\<close> and \<open>uhi\<close>. An
  array has fewer than \<open>2\<^sup>3\<^sup>2\<close> elements, which keeps the factors that accumulate
  between \<open>1 - 2\<^sup>-\<^sup>2\<^sup>0\<close> and \<open>1 + 2\<^sup>-\<^sup>1\<^sup>9\<close>, while \<open>n \<Sigma>x\<^sup>2\<close> is at least
  \<open>4/3 (\<Sigma>x)\<^sup>2\<close>: the divisor of the slope is a positive finite number.
\<close>

lemma ulo_bounds: "0 < ulo" "ulo \<le> 1" "1 / 2 \<le> ulo"
  by (simp_all add: ulo_def)

lemma uhi_bounds: "1 \<le> uhi" "uhi \<le> 2"
  by (simp_all add: uhi_def)

lemma ulo_uhi: "ulo * uhi \<le> 1"
  by (simp add: ulo_def uhi_def)

lemma ulo_power_le_one: "ulo ^ k \<le> 1"
  using ulo_bounds by (simp add: power_le_one)

lemma uhi_power_ge_one: "1 \<le> uhi ^ k"
  using uhi_bounds by (simp add: one_le_power)

lemma ulo_power_lower:
  assumes "k \<le> 2 ^ 33"
  shows "1 - 1 / 2 ^ 20 \<le> ulo ^ k"
proof -
  have "1 + real k * (- (1 / 2 ^ 53)) \<le> (1 + (- (1 / 2 ^ 53))) ^ k"
    by (rule Bernoulli_inequality) simp
  then have b: "1 - real k / 2 ^ 53 \<le> ulo ^ k" by (simp add: ulo_def)
  have "real k \<le> 2 ^ 33" using assms by (metis of_nat_le_iff of_nat_numeral of_nat_power)
  then have "real k / 2 ^ 53 \<le> 2 ^ 33 / 2 ^ 53" by (intro divide_right_mono) simp_all
  also have "\<dots> = 1 / 2 ^ 20" by simp
  finally show ?thesis using b by linarith
qed

lemma uhi_power_upper:
  assumes "k \<le> 2 ^ 33"
  shows "uhi ^ k \<le> 1 + 1 / 2 ^ 19"
proof -
  have lo: "1 - 1 / 2 ^ 20 \<le> ulo ^ k" by (rule ulo_power_lower [OF assms])
  have "ulo ^ k * uhi ^ k = (ulo * uhi) ^ k" by (simp add: power_mult_distrib)
  also have "\<dots> \<le> 1" using ulo_uhi ulo_bounds uhi_bounds by (intro power_le_one) simp_all
  finally have p: "ulo ^ k * uhi ^ k \<le> 1" .
  have h1: "0 \<le> uhi ^ k" using uhi_power_ge_one [of k] by linarith
  have "(1 - 1 / 2 ^ 20) * uhi ^ k \<le> ulo ^ k * uhi ^ k"
    using lo h1 by (intro mult_right_mono)
  with p have q: "(1 - 1 / 2 ^ 20) * uhi ^ k \<le> 1" by linarith
  show ?thesis
  proof (rule ccontr)
    assume "\<not> uhi ^ k \<le> 1 + 1 / 2 ^ 19"
    then have "1 + 1 / 2 ^ 19 < uhi ^ k" by simp
    then have "(1 - 1 / 2 ^ 20) * (1 + 1 / 2 ^ 19) < (1 - 1 / 2 ^ 20) * uhi ^ k"
      by (intro mult_strict_left_mono) simp_all
    moreover have "(1::real) < (1 - 1 / 2 ^ 20) * (1 + 1 / 2 ^ 19)" by simp
    ultimately show False using q by linarith
  qed
qed


lemma foldl_add_bounds:
  assumes "\<forall>t\<in>set ts. t = 0 \<or> 1 / 2 \<le> t"
    and "L * ulo ^ k \<le> a" and "a \<le> L * uhi ^ k" and "L = 0 \<or> 1 / 2 \<le> L"
    and "1 / 2 \<le> ulo ^ (k + length ts)" and "uhi ^ (k + length ts) \<le> 2"
    and "L + sum_list ts \<le> 2 ^ 998"
  shows "\<exists>r. foldl (\<lambda>a t. js_add a (Num t)) (Num a) ts = Num r \<and>
             (L + sum_list ts) * ulo ^ (k + length ts) \<le> r \<and>
             r \<le> (L + sum_list ts) * uhi ^ (k + length ts)"
  using assms
proof (induction ts arbitrary: a L k)
  case Nil
  then show ?case by simp
next
  case (Cons t ts)
  have t: "t = 0 \<or> 1 / 2 \<le> t" using Cons.prems(1) by simp
  then have t0: "0 \<le> t" by linarith
  have L0: "0 \<le> L" using Cons.prems(4) by linarith
  have rest0: "0 \<le> sum_list ts"
  proof (rule sum_list_nonneg)
    fix x assume "x \<in> set ts"
    with Cons.prems(1) have "x = 0 \<or> 1 / 2 \<le> x" by simp
    then show "0 \<le> x" by linarith
  qed
  have lok: "1 / 2 \<le> ulo ^ k"
  proof -
    have "ulo ^ (k + length (t # ts)) \<le> ulo ^ k"
      using ulo_bounds by (intro power_decreasing) simp_all
    with Cons.prems(5) show ?thesis by linarith
  qed
  have hik: "uhi ^ k \<le> 2"
  proof -
    have "uhi ^ k \<le> uhi ^ (k + length (t # ts))"
      using uhi_bounds by (intro power_increasing) simp_all
    with Cons.prems(6) show ?thesis by linarith
  qed
  have lo1: "ulo ^ k \<le> 1" by (rule ulo_power_le_one)
  have hi1: "1 \<le> uhi ^ k" by (rule uhi_power_ge_one)
  define x where "x = a + t"
  have "t * ulo ^ k \<le> t * 1" using t0 lo1 by (intro mult_left_mono)
  then have xl: "(L + t) * ulo ^ k \<le> x"
    using Cons.prems(2) by (simp add: x_def distrib_right)
  have "t * 1 \<le> t * uhi ^ k" using t0 hi1 by (intro mult_left_mono)
  then have xh: "x \<le> (L + t) * uhi ^ k"
    using Cons.prems(3) by (simp add: x_def distrib_right)
  have Lt: "L + t = 0 \<or> 1 / 2 \<le> L + t" using t Cons.prems(4) by linarith
  have xr: "x = 0 \<or> 1 / 4 \<le> x"
  proof (cases "L + t = 0")
    case True
    with xl xh show ?thesis by simp
  next
    case False
    with Lt have h: "1 / 2 \<le> L + t" by simp
    have "(1 / 2) * (1 / 2) \<le> (L + t) * ulo ^ k"
      using h lok by (intro mult_mono) simp_all
    with xl show ?thesis by simp
  qed
  have Lt998: "L + t \<le> 2 ^ 998" using Cons.prems(7) rest0 by simp
  have "(L + t) * uhi ^ k \<le> 2 ^ 998 * 2"
    using Lt998 hik L0 t0 hi1 by (intro mult_mono) simp_all
  also have "\<dots> \<le> (2::real) ^ 1000"
  proof -
    have "(2::real) ^ 999 \<le> 2 ^ 1000" by (rule power_increasing) simp_all
    then show ?thesis by simp
  qed
  finally have x1000: "x \<le> 2 ^ 1000" using xh by linarith
  from round64_bounds [OF xr x1000]
  have r: "round64 x = Num (roundFinite x)"
    and rl: "x * ulo \<le> roundFinite x" and rh: "roundFinite x \<le> x * uhi" by simp_all
  have "(L + t) * ulo ^ k * ulo \<le> x * ulo"
    using xl ulo_bounds by (intro mult_right_mono) simp_all
  with rl have a2: "(L + t) * ulo ^ Suc k \<le> roundFinite x" by (simp add: mult_ac)
  have "x * uhi \<le> (L + t) * uhi ^ k * uhi"
    using xh uhi_bounds by (intro mult_right_mono) simp_all
  with rh have a3: "roundFinite x \<le> (L + t) * uhi ^ Suc k" by (simp add: mult_ac)
  have a5: "1 / 2 \<le> ulo ^ (Suc k + length ts)" using Cons.prems(5) by simp
  have a6: "uhi ^ (Suc k + length ts) \<le> 2" using Cons.prems(6) by simp
  have a7: "(L + t) + sum_list ts \<le> 2 ^ 998" using Cons.prems(7) by (simp add: add.assoc)
  have a1: "\<forall>t\<in>set ts. t = 0 \<or> 1 / 2 \<le> t" using Cons.prems(1) by simp
  from Cons.IH [OF a1 a2 a3 Lt a5 a6 a7]
  obtain r' where "foldl (\<lambda>a t. js_add a (Num t)) (Num (roundFinite x)) ts = Num r'"
    and "(L + t + sum_list ts) * ulo ^ (Suc k + length ts) \<le> r'"
    and "r' \<le> (L + t + sum_list ts) * uhi ^ (Suc k + length ts)" by blast
  then show ?case using r by (simp add: x_def add.assoc)
qed


lemma sum_list_upt: "sum_list (map f [0..<n]) = (\<Sum>i = 0..<n. f i)"
  by (simp add: interv_sum_list_conv_sum_set_nat)

lemma sum_index: "(\<Sum>i = 0..<n. real i) = real n * (real n - 1) / 2"
  by (induction n) (simp_all add: field_simps)

lemma sum_index_sq:
  "(\<Sum>i = 0..<n. real i * real i) = (real n - 1) * real n * (2 * real n - 1) / 6"
  by (induction n) (simp_all add: field_simps)

text \<open>The exact sums of the indices and of their squares, and what is needed of them.\<close>

lemma index_sums:
  fixes n :: nat
  assumes n2: "2 \<le> n" and n32: "n < 2 ^ 32"
  defines "S1 \<equiv> sum_list (map real [0..<n])"
    and "S2 \<equiv> sum_list (map (\<lambda>i. real i * real i) [0..<n])"
  shows "1 \<le> S1" and "S1 \<le> 2 ^ 64" and "1 \<le> S2" and "S2 \<le> 2 ^ 96"
    and "4 / 3 * (S1 * S1) \<le> real n * S2"
proof -
  define a where "a = real n"
  have a2: "2 \<le> a" using n2 by (simp add: a_def)
  have "real n < 2 ^ 32" using n32 by (metis of_nat_less_iff of_nat_numeral of_nat_power)
  then have a32: "a \<le> 2 ^ 32" by (simp add: a_def)
  have s1: "S1 = a * (a - 1) / 2"
    by (simp add: S1_def sum_list_upt sum_index a_def)
  have s2: "S2 = (a - 1) * a * (2 * a - 1) / 6"
    by (simp add: S2_def sum_list_upt sum_index_sq a_def)
  have aa: "a * a \<le> 2 ^ 32 * 2 ^ 32" using a2 a32 by (intro mult_mono) simp_all
  have aaa: "a * a * a \<le> 2 ^ 32 * 2 ^ 32 * 2 ^ 32" using a2 a32 aa by (intro mult_mono) simp_all
  have p1: "2 * 1 \<le> a * (a - 1)" using a2 by (intro mult_mono) simp_all
  show "1 \<le> S1" using p1 by (simp add: s1)
  have "a * (a - 1) \<le> a * a" using a2 by (intro mult_left_mono) simp_all
  then show "S1 \<le> 2 ^ 64" using aa by (simp add: s1)
  have "1 * 2 \<le> (a - 1) * a" using a2 by (intro mult_mono) simp_all
  then have "1 * 2 * 3 \<le> (a - 1) * a * (2 * a - 1)" using a2 by (intro mult_mono) simp_all
  then show "1 \<le> S2" by (simp add: s2)
  have "(a - 1) * a \<le> a * a" using a2 by (intro mult_right_mono) simp_all
  then have "(a - 1) * a * (2 * a - 1) \<le> a * a * (2 * a)" using a2 by (intro mult_mono) simp_all
  also have "\<dots> = 2 * (a * a * a)" by simp
  finally have "(a - 1) * a * (2 * a - 1) \<le> 2 * (2 ^ 32 * 2 ^ 32 * 2 ^ 32)" using aaa by linarith
  then show "S2 \<le> 2 ^ 96" by (simp add: s2)
  have "0 \<le> a * a * (a - 1)" using a2 by (intro mult_nonneg_nonneg) simp_all
  moreover have "real n * S2 - 4 / 3 * (S1 * S1) = a * a * (a - 1) / 6"
    by (simp add: s1 s2 a_def [symmetric] field_simps)
  ultimately show "4 / 3 * (S1 * S1) \<le> real n * S2" by linarith
qed


lemma power_bounds_32:
  fixes n :: nat
  assumes "n < 2 ^ 32"
  shows "1 - 1 / 2 ^ 20 \<le> ulo ^ n" and "uhi ^ n \<le> 1 + 1 / 2 ^ 19"
    and "1 / 2 \<le> ulo ^ n" and "uhi ^ n \<le> 2"
proof -
  have n: "n \<le> 2 ^ 33" using assms by simp
  show lo: "1 - 1 / 2 ^ 20 \<le> ulo ^ n" by (rule ulo_power_lower [OF n])
  show hi: "uhi ^ n \<le> 1 + 1 / 2 ^ 19" by (rule uhi_power_upper [OF n])
  have "(1::real) / 2 \<le> 1 - 1 / 2 ^ 20" by simp
  with lo show "1 / 2 \<le> ulo ^ n" by linarith
  have "(1::real) + 1 / 2 ^ 19 \<le> 2" by simp
  with hi show "uhi ^ n \<le> 2" by linarith
qed

lemma sumX_bounds:
  fixes n :: nat
  assumes n2: "2 \<le> n" and n32: "n < 2 ^ 32"
  shows "\<exists>r. sumX n = Num r \<and>
           sum_list (map real [0..<n]) * (1 - 1 / 2 ^ 20) \<le> r \<and>
           r \<le> sum_list (map real [0..<n]) * (1 + 1 / 2 ^ 19)"
proof -
  define S1 where "S1 = sum_list (map real [0..<n])"
  note s = index_sums [OF n2 n32, folded S1_def]
  note p = power_bounds_32 [OF n32]
  have fold: "sumX n = foldl (\<lambda>a t. js_add a (Num t)) (Num 0) (map real [0..<n])"
    by (simp add: sumX_def indices_def foldl_map)
  have a1: "\<forall>t\<in>set (map real [0..<n]). t = 0 \<or> 1 / 2 \<le> t"
  proof
    fix t assume "t \<in> set (map real [0..<n])"
    then obtain i where "t = real i" by auto
    then show "t = 0 \<or> 1 / 2 \<le> t" by (cases i) simp_all
  qed
  have "(2::real) ^ 64 \<le> 2 ^ 998" by (rule power_increasing) simp_all
  with s(2) have a7: "0 + sum_list (map real [0..<n]) \<le> 2 ^ 998"
    by (simp add: S1_def)
  have "\<exists>r. foldl (\<lambda>a t. js_add a (Num t)) (Num 0) (map real [0..<n]) = Num r \<and>
          (0 + sum_list (map real [0..<n])) * ulo ^ (0 + length (map real [0..<n])) \<le> r \<and>
          r \<le> (0 + sum_list (map real [0..<n])) * uhi ^ (0 + length (map real [0..<n]))"
    using p a7 by (intro foldl_add_bounds [OF a1]) simp_all
  then obtain r where r: "sumX n = Num r" and lo: "S1 * ulo ^ n \<le> r" and hi: "r \<le> S1 * uhi ^ n"
    by (auto simp add: fold S1_def)
  have S0: "0 \<le> S1" using s(1) by linarith
  have "S1 * (1 - 1 / 2 ^ 20) \<le> S1 * ulo ^ n" using S0 p(1) by (intro mult_left_mono)
  moreover have "S1 * uhi ^ n \<le> S1 * (1 + 1 / 2 ^ 19)" using S0 p(2) by (intro mult_left_mono)
  ultimately show ?thesis using r lo hi unfolding S1_def by (intro exI [of _ r]) linarith
qed

lemma square_rounds:
  fixes i :: nat
  assumes "i < 2 ^ 32"
  shows "js_mul (Num (real i)) (Num (real i)) = Num (roundFinite (real i * real i))"
    and "real i * real i * ulo \<le> roundFinite (real i * real i)"
    and "roundFinite (real i * real i) \<le> real i * real i * uhi"
proof -
  have "real i < 2 ^ 32" using assms by (metis of_nat_less_iff of_nat_numeral of_nat_power)
  then have "real i * real i \<le> 2 ^ 32 * 2 ^ 32" by (intro mult_mono) simp_all
  moreover have "(2::real) ^ 32 * 2 ^ 32 \<le> 2 ^ 1000"
  proof -
    have "(2::real) ^ 64 \<le> 2 ^ 1000" by (rule power_increasing) simp_all
    then show ?thesis by simp
  qed
  ultimately have hi: "real i * real i \<le> 2 ^ 1000" by linarith
  have lo: "real i * real i = 0 \<or> 1 / 4 \<le> real i * real i"
  proof (cases i)
    case 0
    then show ?thesis by simp
  next
    case (Suc j)
    then have "1 \<le> real i" by simp
    then have "1 * 1 \<le> real i * real i" by (intro mult_mono) simp_all
    then show ?thesis by simp
  qed
  from round64_bounds [OF lo hi]
  show "js_mul (Num (real i)) (Num (real i)) = Num (roundFinite (real i * real i))"
    and "real i * real i * ulo \<le> roundFinite (real i * real i)"
    and "roundFinite (real i * real i) \<le> real i * real i * uhi"
    by simp_all
qed

lemma sumX2_bounds:
  fixes n :: nat
  assumes n2: "2 \<le> n" and n32: "n < 2 ^ 32"
  shows "\<exists>r. sumX2 n = Num r \<and>
           sum_list (map (\<lambda>i. real i * real i) [0..<n]) * (ulo * (1 - 1 / 2 ^ 20)) \<le> r \<and>
           r \<le> sum_list (map (\<lambda>i. real i * real i) [0..<n]) * (uhi * (1 + 1 / 2 ^ 19))"
proof -
  define S2 where "S2 = sum_list (map (\<lambda>i. real i * real i) [0..<n])"
  define q where "q = (\<lambda>i. roundFinite (real i * real i))"
  note s = index_sums [OF n2 n32, folded S2_def]
  note p = power_bounds_32 [OF n32]
  have i32: "i < 2 ^ 32" if "i \<in> set [0..<n]" for i using that n32 by simp
  have "sumX2 n = foldl (\<lambda>sum i. js_add sum (js_mul (Num (real i)) (Num (real i)))) (Num 0) [0..<n]"
    by (simp add: sumX2_def indices_def foldl_map)
  also have "\<dots> = foldl (\<lambda>sum i. js_add sum (Num (q i))) (Num 0) [0..<n]"
  proof (rule foldl_cong)
    fix a i assume "i \<in> set [0..<n]"
    then have "js_mul (Num (real i)) (Num (real i)) = Num (q i)"
      unfolding q_def by (intro square_rounds(1) i32)
    then show "js_add a (js_mul (Num (real i)) (Num (real i))) = js_add a (Num (q i))"
      by (simp only:)
  qed simp_all
  also have "\<dots> = foldl (\<lambda>a t. js_add a (Num t)) (Num 0) (map q [0..<n])"
    by (simp add: foldl_map)
  finally have fold: "sumX2 n = foldl (\<lambda>a t. js_add a (Num t)) (Num 0) (map q [0..<n])" .
  have a1: "\<forall>t\<in>set (map q [0..<n]). t = 0 \<or> 1 / 2 \<le> t"
  proof
    fix t assume "t \<in> set (map q [0..<n])"
    then obtain i where i: "i \<in> set [0..<n]" and t: "t = q i" by auto
    show "t = 0 \<or> 1 / 2 \<le> t"
    proof (cases i)
      case 0
      then show ?thesis by (simp add: t q_def)
    next
      case (Suc j)
      then have "1 \<le> real i" by simp
      then have "1 * 1 \<le> real i * real i" by (intro mult_mono) simp_all
      then have "1 * (1 / 2) \<le> real i * real i * ulo"
        using ulo_bounds by (intro mult_mono) simp_all
      with square_rounds(2) [OF i32 [OF i]] show ?thesis by (simp add: t q_def)
    qed
  qed
  have ql: "S2 * ulo \<le> sum_list (map q [0..<n])"
  proof -
    have "sum_list (map (\<lambda>i. real i * real i * ulo) [0..<n]) \<le> sum_list (map q [0..<n])"
      by (rule sum_list_mono) (simp add: q_def square_rounds(2) [OF i32])
    then show ?thesis by (simp add: S2_def sum_list_mult_const)
  qed
  have qh: "sum_list (map q [0..<n]) \<le> S2 * uhi"
  proof -
    have "sum_list (map q [0..<n]) \<le> sum_list (map (\<lambda>i. real i * real i * uhi) [0..<n])"
      by (rule sum_list_mono) (simp add: q_def square_rounds(3) [OF i32])
    then show ?thesis by (simp add: S2_def sum_list_mult_const)
  qed
  have S0: "0 \<le> S2" using s(3) by linarith
  have "S2 * uhi \<le> 2 ^ 96 * 2" using s(4) uhi_bounds S0 by (intro mult_mono) simp_all
  moreover have "(2::real) ^ 96 * 2 \<le> 2 ^ 998"
  proof -
    have "(2::real) ^ 97 \<le> 2 ^ 998" by (rule power_increasing) simp_all
    then show ?thesis by simp
  qed
  ultimately have a7: "0 + sum_list (map q [0..<n]) \<le> 2 ^ 998" using qh by linarith
  have "\<exists>r. foldl (\<lambda>a t. js_add a (Num t)) (Num 0) (map q [0..<n]) = Num r \<and>
          (0 + sum_list (map q [0..<n])) * ulo ^ (0 + length (map q [0..<n])) \<le> r \<and>
          r \<le> (0 + sum_list (map q [0..<n])) * uhi ^ (0 + length (map q [0..<n]))"
    using p a7 by (intro foldl_add_bounds [OF a1]) simp_all
  then obtain r where r: "sumX2 n = Num r"
    and lo: "sum_list (map q [0..<n]) * ulo ^ n \<le> r"
    and hi: "r \<le> sum_list (map q [0..<n]) * uhi ^ n"
    by (auto simp add: fold)
  have q0: "0 \<le> sum_list (map q [0..<n])"
    using ql S0 ulo_bounds by (smt (verit) mult_nonneg_nonneg)
  have "S2 * ulo * (1 - 1 / 2 ^ 20) \<le> sum_list (map q [0..<n]) * ulo ^ n"
    using ql p(1) q0 by (intro mult_mono) simp_all
  moreover have "sum_list (map q [0..<n]) * uhi ^ n \<le> S2 * uhi * (1 + 1 / 2 ^ 19)"
  proof -
    have "0 \<le> S2 * uhi" using S0 uhi_bounds by simp
    moreover have "0 \<le> uhi ^ n" using uhi_power_ge_one [of n] by linarith
    ultimately show ?thesis using qh p(2) by (intro mult_mono)
  qed
  ultimately have "S2 * (ulo * (1 - 1 / 2 ^ 20)) \<le> r" and "r \<le> S2 * (uhi * (1 + 1 / 2 ^ 19))"
    using lo hi by (simp_all only: mult.assoc)
  then show ?thesis using r unfolding S2_def by blast
qed


lemma slopeDenominator_positive:
  fixes n :: nat
  assumes n2: "2 \<le> n" and n32: "n < 2 ^ 32"
  shows "\<exists>d. slopeDenominator n = Num d \<and> 0 < d"
proof -
  define S1 where "S1 = sum_list (map real [0..<n])"
  define S2 where "S2 = sum_list (map (\<lambda>i. real i * real i) [0..<n])"
  define a where "a = real n"
  note s = index_sums [OF n2 n32, folded S1_def S2_def a_def]
  from sumX_bounds [OF n2 n32] obtain r1 where r1: "sumX n = Num r1"
    and r1l: "S1 * (1 - 1 / 2 ^ 20) \<le> r1" and r1h: "r1 \<le> S1 * (1 + 1 / 2 ^ 19)"
    unfolding S1_def by blast
  from sumX2_bounds [OF n2 n32] obtain r2 where r2: "sumX2 n = Num r2"
    and r2l: "S2 * (ulo * (1 - 1 / 2 ^ 20)) \<le> r2" and r2h: "r2 \<le> S2 * (uhi * (1 + 1 / 2 ^ 19))"
    unfolding S2_def by blast
  have a2: "2 \<le> a" using n2 by (simp add: a_def)
  have "real n < 2 ^ 32" using n32 by (metis of_nat_less_iff of_nat_numeral of_nat_power)
  then have a32: "a \<le> 2 ^ 32" by (simp add: a_def)
  have S1pos: "0 \<le> S1" and S2pos: "0 \<le> S2" using s(1) s(3) by linarith+
  have c1: "(1::real) - 1 / 2 ^ 19 \<le> ulo * (1 - 1 / 2 ^ 20)" by (simp add: ulo_def)
  have c2: "uhi * (1 + 1 / 2 ^ 19) \<le> (2::real)" by (simp add: uhi_def)
  have r2l': "S2 * (1 - 1 / 2 ^ 19) \<le> r2"
  proof -
    have "S2 * (1 - 1 / 2 ^ 19) \<le> S2 * (ulo * (1 - 1 / 2 ^ 20))"
      using S2pos c1 by (intro mult_left_mono)
    with r2l show ?thesis by linarith
  qed
  have r2h': "r2 \<le> 2 ^ 96 * 2"
  proof -
    have "S2 * (uhi * (1 + 1 / 2 ^ 19)) \<le> 2 ^ 96 * 2"
      using s(4) c2 S2pos uhi_bounds by (intro mult_mono) simp_all
    with r2h show ?thesis by linarith
  qed
  have r2half: "1 / 2 \<le> r2"
  proof -
    have "1 * (1 / 2) \<le> S2 * (1 - 1 / 2 ^ 19)" using s(3) by (intro mult_mono) simp_all
    with r2l' show ?thesis by linarith
  qed
  have r1half: "1 / 2 \<le> r1"
  proof -
    have "1 * (1 / 2) \<le> S1 * (1 - 1 / 2 ^ 20)" using s(1) by (intro mult_mono) simp_all
    with r1l show ?thesis by linarith
  qed
  have r1h': "r1 \<le> 2 ^ 64 * 2"
  proof -
    have "S1 * (1 + 1 / 2 ^ 19) \<le> 2 ^ 64 * 2" using s(2) S1pos by (intro mult_mono) simp_all
    with r1h show ?thesis by linarith
  qed
  define x1 where "x1 = a * r2"
  define x2 where "x2 = r1 * r1"
  have x1l: "a * (S2 * (1 - 1 / 2 ^ 19)) \<le> x1"
    unfolding x1_def using r2l' a2 by (intro mult_left_mono) simp_all
  have x1one: "1 \<le> x1"
  proof -
    have "2 * (1 / 2) \<le> a * r2" using a2 r2half by (intro mult_mono) simp_all
    then show ?thesis by (simp add: x1_def)
  qed
  have x1h: "x1 \<le> 2 ^ 32 * (2 ^ 96 * 2)"
    unfolding x1_def using a32 r2h' a2 r2half by (intro mult_mono) simp_all
  have big: "(2::real) ^ 32 * (2 ^ 96 * 2) * 2 \<le> 2 ^ 1000"
  proof -
    have "(2::real) ^ 130 \<le> 2 ^ 1000" by (rule power_increasing) simp_all
    then show ?thesis by simp
  qed
  have x1r: "x1 = 0 \<or> 1 / 4 \<le> x1" using x1one by simp
  have x1k: "x1 \<le> 2 ^ 1000" using x1h big by simp
  from round64_bounds [OF x1r x1k]
  have A: "round64 x1 = Num (roundFinite x1)"
    and Al: "x1 * ulo \<le> roundFinite x1" and Ah: "roundFinite x1 \<le> x1 * uhi" by simp_all
  have x2l: "1 / 4 \<le> x2"
  proof -
    have "(1 / 2) * (1 / 2) \<le> r1 * r1" using r1half by (intro mult_mono) simp_all
    then show ?thesis by (simp add: x2_def)
  qed
  have x2h: "x2 \<le> S1 * (1 + 1 / 2 ^ 19) * (S1 * (1 + 1 / 2 ^ 19))"
    unfolding x2_def using r1h r1half S1pos by (intro mult_mono) simp_all
  have x2k: "x2 \<le> 2 ^ 1000"
  proof -
    have "r1 * r1 \<le> 2 ^ 64 * 2 * (2 ^ 64 * 2)" using r1h' r1half by (intro mult_mono) simp_all
    moreover have "(2::real) ^ 64 * 2 * (2 ^ 64 * 2) \<le> 2 ^ 1000"
    proof -
      have "(2::real) ^ 130 \<le> 2 ^ 1000" by (rule power_increasing) simp_all
      then show ?thesis by simp
    qed
    ultimately show ?thesis unfolding x2_def by linarith
  qed
  have x2r: "x2 = 0 \<or> 1 / 4 \<le> x2" using x2l by simp
  from round64_bounds [OF x2r x2k]
  have B: "round64 x2 = Num (roundFinite x2)"
    and Bh: "roundFinite x2 \<le> x2 * uhi" by simp_all
  define P where "P = a * S2"
  define Q where "Q = S1 * S1"
  have PQ: "4 / 3 * Q \<le> P" using s(5) by (simp add: P_def Q_def)
  have Q1: "1 \<le> Q"
  proof -
    have "1 * 1 \<le> S1 * S1" using s(1) by (intro mult_mono) simp_all
    then show ?thesis by (simp add: Q_def)
  qed
  have P0: "0 \<le> P" using PQ Q1 by linarith
  have "x1 * ulo \<le> roundFinite x1" by (rule Al)
  moreover have "a * (S2 * (1 - 1 / 2 ^ 19)) * (1 - 1 / 2 ^ 19) \<le> x1 * ulo"
  proof -
    have "(1::real) - 1 / 2 ^ 19 \<le> ulo" by (simp add: ulo_def)
    then show ?thesis using x1l x1one by (intro mult_mono) simp_all
  qed
  moreover have "a * (S2 * (1 - 1 / 2 ^ 19)) * (1 - 1 / 2 ^ 19)
      = P * ((1 - 1 / 2 ^ 19) * (1 - 1 / 2 ^ 19))"
    by (simp add: P_def mult_ac)
  ultimately have Alow: "P * ((1 - 1 / 2 ^ 19) * (1 - 1 / 2 ^ 19)) \<le> roundFinite x1"
    by linarith
  have "x2 * uhi \<le> S1 * (1 + 1 / 2 ^ 19) * (S1 * (1 + 1 / 2 ^ 19)) * (1 + 1 / 2 ^ 19)"
  proof -
    have "uhi \<le> 1 + 1 / 2 ^ 19" by (simp add: uhi_def)
    then show ?thesis using x2h x2l uhi_bounds by (intro mult_mono) simp_all
  qed
  moreover have "S1 * (1 + 1 / 2 ^ 19) * (S1 * (1 + 1 / 2 ^ 19)) * (1 + 1 / 2 ^ 19)
      = Q * ((1 + 1 / 2 ^ 19) * (1 + 1 / 2 ^ 19) * (1 + 1 / 2 ^ 19))"
    by (simp add: Q_def mult_ac)
  ultimately have Bhigh:
    "roundFinite x2 \<le> Q * ((1 + 1 / 2 ^ 19) * (1 + 1 / 2 ^ 19) * (1 + 1 / 2 ^ 19))"
    using Bh by linarith
  have k1: "(1::real) - 1 / 2 ^ 18 \<le> (1 - 1 / 2 ^ 19) * (1 - 1 / 2 ^ 19)" by simp
  have k2: "((1::real) + 1 / 2 ^ 19) * (1 + 1 / 2 ^ 19) * (1 + 1 / 2 ^ 19) \<le> 1 + 1 / 2 ^ 17"
    by simp
  have "P * (1 - 1 / 2 ^ 18) \<le> P * ((1 - 1 / 2 ^ 19) * (1 - 1 / 2 ^ 19))"
    using P0 k1 by (intro mult_left_mono)
  with Alow have Alow': "P * (1 - 1 / 2 ^ 18) \<le> roundFinite x1" by linarith
  have "Q * ((1 + 1 / 2 ^ 19) * (1 + 1 / 2 ^ 19) * (1 + 1 / 2 ^ 19)) \<le> Q * (1 + 1 / 2 ^ 17)"
    using Q1 k2 by (intro mult_left_mono) simp_all
  with Bhigh have Bhigh': "roundFinite x2 \<le> Q * (1 + 1 / 2 ^ 17)" by linarith
  define D where "D = roundFinite x1 - roundFinite x2"
  have "Q * (1 / 4) \<le> 4 / 3 * Q * (1 - 1 / 2 ^ 18) - Q * (1 + 1 / 2 ^ 17)"
    using Q1 by simp
  moreover have "4 / 3 * Q * (1 - 1 / 2 ^ 18) \<le> P * (1 - 1 / 2 ^ 18)"
    using PQ by (intro mult_right_mono) simp_all
  ultimately have Dl: "1 / 4 \<le> D" using Alow' Bhigh' Q1 unfolding D_def by linarith
  have B0: "0 \<le> roundFinite x2"
  proof -
    have "x2 * ulo \<le> roundFinite x2" using round64_bounds [OF x2r x2k] by simp
    moreover have "0 \<le> x2 * ulo" using x2l ulo_bounds by simp
    ultimately show ?thesis by linarith
  qed
  have "x1 * uhi \<le> 2 ^ 32 * (2 ^ 96 * 2) * 2" using x1h x1one uhi_bounds by (intro mult_mono) simp_all
  then have Dh: "D \<le> 2 ^ 1000" using Ah B0 big unfolding D_def by linarith
  have Dr: "D = 0 \<or> 1 / 4 \<le> D" using Dl by simp
  from round64_bounds [OF Dr Dh]
  have R: "round64 D = Num (roundFinite D)" and Rl: "D * ulo \<le> roundFinite D" by simp_all
  have "(1 / 4) * (1 / 2) \<le> D * ulo" using Dl ulo_bounds by (intro mult_mono) simp_all
  then have pos: "0 < roundFinite D" using Rl by linarith
  have "slopeDenominator n = round64 D"
    by (simp add: slopeDenominator_def r1 r2 js_sub_def A B D_def
        x1_def [symmetric, unfolded a_def] x2_def [symmetric])
  then show ?thesis using R pos by simp
qed

section \<open>Facts about the trend computation\<close>

lemma round64_numeral [simp]:
  "numeral w < (2::real) ^ 53 \<Longrightarrow> round64 (numeral w) = Num (numeral w)"
  by (rule round64_Ints) simp_all

lemma round64_neg_numeral [simp]:
  "numeral w < (2::real) ^ 53 \<Longrightarrow> round64 (- numeral w) = Num (- numeral w)"
  by (rule round64_Ints) simp_all

lemma round64_zero [simp]: "round64 0 = Num 0"
  by (rule round64_Ints) simp_all

lemma round64_one [simp]: "round64 1 = Num 1"
  by (rule round64_Ints) simp_all

lemma round64_neg_one [simp]: "round64 (- 1) = Num (- 1)"
  by (rule round64_Ints) simp_all

lemma map_nth_map2:
  assumes "length xs = n" and "length ys = n"
  shows "map (\<lambda>i. f (xs ! i) (ys ! i)) [0..<n] = map2 f xs ys"
  using assms by (intro nth_equalityI) simp_all

lemma sumY_jsSum: "sumY vs = jsSum (map toNumber vs)"
  by (simp add: sumY_def jsSum_def foldl_map)

lemma sumX_jsSum: "sumX n = jsSum (map (\<lambda>i. Num (real i)) [0..<n])"
  by (simp add: sumX_def jsSum_def indices_def)

lemma sumX2_jsSum:
  "sumX2 n = jsSum (map (\<lambda>xi. js_mul xi xi) (map (\<lambda>i. Num (real i)) [0..<n]))"
  by (simp add: sumX2_def jsSum_def indices_def foldl_map)

lemma sumXY_jsSum:
  "sumXY vs = jsSum (map2 js_mul (map (\<lambda>i. Num (real i)) [0..<length vs]) (map toNumber vs))"
proof -
  have "sumXY vs =
      jsSum (map (\<lambda>i. js_mul (indices (length vs) ! i) (map toNumber vs ! i)) [0..<length vs])"
    unfolding sumXY_def jsSum_def foldl_map
    by (rule foldl_cong) simp_all
  also have "\<dots> = jsSum (map2 js_mul (indices (length vs)) (map toNumber vs))"
    by (subst map_nth_map2) (simp_all add: indices_def)
  finally show ?thesis by (simp add: indices_def)
qed

lemma slope_formula:
  "js_div (slopeNumerator vs) (slopeDenominator (length vs)) = formulaSlope (map toNumber vs)"
  by (simp add: slopeNumerator_def slopeDenominator_def formulaSlope_def Let_def
      sumX_jsSum sumY_jsSum sumXY_jsSum sumX2_jsSum)

lemma calculateTrend_many:
  assumes "2 \<le> length (trendValues data key)"
  shows "calculateTrend data key =
     \<lparr>direction = trendDirection (js_div (slopeNumerator (trendValues data key))
                       (slopeDenominator (length (trendValues data key)))),
      slope = js_div (slopeNumerator (trendValues data key))
                       (slopeDenominator (length (trendValues data key))),
      change = Some (js_sub (toNumber (trendValues data key ! (length (trendValues data key) - 1)))
                            (toNumber (trendValues data key ! 0)))\<rparr>"
  using assms by (simp add: calculateTrend_def Let_def)

lemma calculateTrend_formula:
  assumes "2 \<le> length (trendValues data key)"
  shows "calculateTrend data key =
     \<lparr>direction = trendDirection (formulaSlope (map toNumber (trendValues data key))),
      slope = formulaSlope (map toNumber (trendValues data key)),
      change = Some (js_sub (toNumber (trendValues data key ! (length (trendValues data key) - 1)))
                            (toNumber (trendValues data key ! 0)))\<rparr>"
  by (simp only: calculateTrend_many [OF assms] slope_formula)

lemma trendValues_series_numbers [simp]:
  "trendValues (series key (numbers ys)) key = numbers ys"
  by (induction ys) (simp_all add: trendValues_def series_def numbers_def getProp_def)

lemma length_numbers [simp]: "length (numbers ys) = length ys"
  by (simp add: numbers_def)

lemma formulaSlope_rising: "formulaSlope [Num 10, Num 20, Num 30] = Num 10"
  by (simp add: formulaSlope_def jsSum_def Let_def js_sub_def)

lemma formulaSlope_falling: "formulaSlope [Num 30, Num 20, Num 10] = Num (- 10)"
  by (simp add: formulaSlope_def jsSum_def Let_def js_sub_def)

lemma formulaSlope_history: "formulaSlope [Num 72, Num 75, Num 70] = Num (- 1)"
  by (simp add: formulaSlope_def jsSum_def Let_def js_sub_def)

lemma trendDirection_cases:
  "(trendDirection s = ''increasing'' \<longleftrightarrow> js_gt s (Num lit_0_1)) \<and>
   (trendDirection s = ''decreasing'' \<longleftrightarrow> js_lt s (Num (- lit_0_1))) \<and>
   (trendDirection s = ''stable'' \<longleftrightarrow> \<not> js_gt s (Num lit_0_1) \<and> \<not> js_lt s (Num (- lit_0_1)))"
  by (cases s) (auto simp add: trendDirection_def lit_0_1_def)

lemma trendDirection_label: "trendDirection s \<in> {''increasing'', ''decreasing'', ''stable''}"
  by (simp add: trendDirection_def)

lemma trendValues_count:
  "length (trendValues data key) =
   length (filter (\<lambda>d. getProp d key \<noteq> Null \<and> getProp d key \<noteq> Undefined) data)"
  by (simp add: trendValues_def filter_map comp_def)

section \<open>Blood pressure bands and risks\<close>

text \<open>
  Claim C1. For every pair of integers, systolic and diastolic, the band is the one the
  rules give when the first that matches wins: \<open>crisis\<close> if systolic is at least 180 or
  diastolic at least 120, else \<open>high\<close> if systolic is at least 130 or diastolic at
  least 80, else \<open>elevated\<close> if systolic is from 120 to below 130 and diastolic below
  80, else \<open>normal\<close>. In particular a pair with systolic at least 180 or diastolic at
  least 120 has band \<open>crisis\<close> and risk \<open>critical\<close>.
\<close>

theorem bloodPressure_band_rules:
  fixes s d :: int
  shows "classifyBloodPressure (Num (of_int s)) (Num (of_int d)) =
     (if 180 \<le> s \<or> 120 \<le> d then ''crisis''
      else if 130 \<le> s \<or> 80 \<le> d then ''high''
      else if 120 \<le> s \<and> s < 130 \<and> d < 80 then ''elevated''
      else ''normal'') \<and>
     (180 \<le> s \<or> 120 \<le> d \<longrightarrow>
        classifyBloodPressure (Num (of_int s)) (Num (of_int d)) = ''crisis'' \<and>
        assessBloodPressureRisk (Num (of_int s)) (Num (of_int d)) = ''critical'')"
  by (simp add: classifyBloodPressure_def assessBloodPressureRisk_def)

theorem bloodPressure_band_rules_witness:
  "(180 \<le> (185::int) \<or> 120 \<le> (70::int)) \<and>
   classifyBloodPressure (Num 185) (Num 70) = ''crisis'' \<and>
   assessBloodPressureRisk (Num 185) (Num 70) = ''critical''"
  using bloodPressure_band_rules [of 185 70] by simp

text \<open>
  Claim C5. With the diastolic value fixed, a systolic value that is no smaller gives a
  band that is no less severe in the order normal, elevated, high, crisis, and a risk
  that is no less severe in the order low, elevated, moderate, high, critical. The
  systolic values may be infinite, and the diastolic value may be any number, NaN too.
\<close>

theorem bloodPressure_monotone_in_systolic:
  assumes "js_le s1 s2"
  shows "severityLeq bandOrder (classifyBloodPressure s1 d) (classifyBloodPressure s2 d) \<and>
         severityLeq riskOrder (assessBloodPressureRisk s1 d) (assessBloodPressureRisk s2 d)"
  using assms
  by (cases s1; cases s2; cases d)
     (simp_all add: classifyBloodPressure_def assessBloodPressureRisk_def severityLeq_def
        bandOrder_def riskOrder_def js_ge_def)

theorem bloodPressure_monotone_in_systolic_witness:
  "js_le (Num 125) (Num 135) \<and>
   classifyBloodPressure (Num 125) (Num 70) = ''elevated'' \<and>
   classifyBloodPressure (Num 135) (Num 70) = ''high'' \<and>
   severityLeq bandOrder ''elevated'' ''high'' \<and>
   severityLeq riskOrder (assessBloodPressureRisk (Num 125) (Num 70))
     (assessBloodPressureRisk (Num 135) (Num 70))"
  using bloodPressure_monotone_in_systolic [of "Num 125" "Num 135" "Num 70"]
  by (simp add: classifyBloodPressure_def)

text \<open>
  A systolic value below the expected range from 0 to 300 is not classified as the most
  severe band: at -5 over 70 the band is \<open>normal\<close>.
\<close>

theorem negative_pressure_not_crisis:
  "\<not> (0 \<le> (-5::real) \<and> (-5::real) \<le> 300) \<and>
   classifyBloodPressure (Num (-5)) (Num 70) = ''normal'' \<and>
   classifyBloodPressure (Num (-5)) (Num 70) \<noteq> ''crisis''"
  by (simp add: classifyBloodPressure_def)

text \<open>
  Claim C6, amended. The classifier has no check of the range and always returns a band.
  A systolic or diastolic value above 300 gives the band \<open>crisis\<close>. A value below 0
  is classified as 0 would be, by the same rules as every other value, so it does not by
  itself give the most severe band.
\<close>

theorem bloodPressure_out_of_range:
  "classifyBloodPressure s d \<in> {''crisis'', ''high'', ''elevated'', ''normal''} \<and>
   (300 < a \<or> 300 < b \<longrightarrow> classifyBloodPressure (Num a) (Num b) = ''crisis'') \<and>
   (a < 0 \<longrightarrow> classifyBloodPressure (Num a) d = classifyBloodPressure (Num 0) d) \<and>
   (b < 0 \<longrightarrow> classifyBloodPressure s (Num b) = classifyBloodPressure s (Num 0))"
  by (cases s; cases d) (auto simp add: classifyBloodPressure_def js_ge_def)

theorem bloodPressure_out_of_range_witness:
  "(300 < (310::real) \<or> 300 < (70::real)) \<and>
   classifyBloodPressure (Num 310) (Num 70) = ''crisis'' \<and>
   (-5::real) < 0 \<and>
   classifyBloodPressure (Num (-5)) (Num 70) = classifyBloodPressure (Num 0) (Num 70) \<and>
   (-3::real) < 0 \<and>
   classifyBloodPressure (Num 125) (Num (-3)) = classifyBloodPressure (Num 125) (Num 0)"
  using bloodPressure_out_of_range [of "Num 125" "Num 70" 310 70]
    bloodPressure_out_of_range [of "Num 125" "Num 70" "-5" "-3"]
  by simp

text \<open>
  Claim C7. There is a reading with the band \<open>normal\<close> and the risk \<open>elevated\<close>:
  systolic 125 with a diastolic value that is NaN, as the caller passes it when the
  diastolic part of the reading is not a number. It is the only such reading at systolic
  125; whenever the diastolic value is a number, the band \<open>normal\<close> comes with the risk
  \<open>low\<close>, and 125 over a diastolic value below 80 has the band and the risk
  \<open>elevated\<close>.
\<close>

theorem normal_band_with_elevated_risk:
  "(\<exists>s d. classifyBloodPressure s d = ''normal'' \<and> assessBloodPressureRisk s d = ''elevated'') \<and>
   classifyBloodPressure (Num 125) NaN = ''normal'' \<and>
   assessBloodPressureRisk (Num 125) NaN = ''elevated'' \<and>
   (classifyBloodPressure (Num 125) d = ''normal'' \<and>
    assessBloodPressureRisk (Num 125) d = ''elevated'' \<longleftrightarrow> d = NaN) \<and>
   (d \<noteq> NaN \<and> classifyBloodPressure s d = ''normal'' \<longrightarrow>
      assessBloodPressureRisk s d = ''low'') \<and>
   (b < 80 \<longrightarrow>
      classifyBloodPressure (Num 125) (Num b) = ''elevated'' \<and>
      assessBloodPressureRisk (Num 125) (Num b) = ''elevated'')"
proof -
  have e: "classifyBloodPressure (Num 125) NaN = ''normal'' \<and>
           assessBloodPressureRisk (Num 125) NaN = ''elevated''"
    by (simp add: classifyBloodPressure_def assessBloodPressureRisk_def)
  then have "\<exists>s d. classifyBloodPressure s d = ''normal'' \<and>
                 assessBloodPressureRisk s d = ''elevated''"
    by blast
  moreover have
    "(classifyBloodPressure (Num 125) d = ''normal'' \<and>
      assessBloodPressureRisk (Num 125) d = ''elevated'' \<longleftrightarrow> d = NaN) \<and>
     (d \<noteq> NaN \<and> classifyBloodPressure s d = ''normal'' \<longrightarrow>
        assessBloodPressureRisk s d = ''low'') \<and>
     (b < 80 \<longrightarrow>
        classifyBloodPressure (Num 125) (Num b) = ''elevated'' \<and>
        assessBloodPressureRisk (Num 125) (Num b) = ''elevated'')"
    by (cases s; cases d)
       (simp_all add: classifyBloodPressure_def assessBloodPressureRisk_def js_ge_def)
  ultimately show ?thesis using e by blast
qed

theorem normal_band_with_elevated_risk_witness:
  "Num 70 \<noteq> NaN \<and>
   classifyBloodPressure (Num 110) (Num 70) = ''normal'' \<and>
   assessBloodPressureRisk (Num 110) (Num 70) = ''low'' \<and>
   (70::real) < 80 \<and>
   classifyBloodPressure (Num 125) (Num 70) = ''elevated'' \<and>
   assessBloodPressureRisk (Num 125) (Num 70) = ''elevated'' \<and>
   classifyBloodPressure (Num 125) NaN = ''normal'' \<and>
   assessBloodPressureRisk (Num 125) NaN = ''elevated''"
  using normal_band_with_elevated_risk [of "Num 70" "Num 110" 70]
  by (simp add: classifyBloodPressure_def)

section \<open>Single-value classifiers\<close>

text \<open>
  Claim C4. The single-value classifiers are exact at their boundaries: a heart rate of
  60 is \<open>normal\<close>, not \<open>bradycardia\<close>, and 59 is \<open>bradycardia\<close>; a temperature
  written 99.1 is \<open>fever\<close> and 99.0 is \<open>normal\<close>; an oxygen saturation of 95 is
  \<open>normal\<close> and 94 is \<open>low\<close>.
\<close>

theorem boundary_exactness:
  "classifyHeartRate (Num 60) = ''normal'' \<and>
   classifyHeartRate (Num 60) \<noteq> ''bradycardia'' \<and>
   classifyHeartRate (Num 59) = ''bradycardia'' \<and>
   classifyTemperature (Num lit_99_1) = ''fever'' \<and>
   classifyTemperature (Num 99) = ''normal'' \<and>
   classifyOxygenSaturation (Num 95) = ''normal'' \<and>
   classifyOxygenSaturation (Num 94) = ''low''"
  by (simp add: classifyHeartRate_def classifyTemperature_def classifyOxygenSaturation_def
      lit_99_1_def lit_103_1_def)

text \<open>
  Claim C10. For every heart rate, infinite or NaN too, the band is \<open>normal\<close> exactly
  when the risk is \<open>low\<close>; for a finite heart rate both hold exactly when it is from
  60 to 100.
\<close>

theorem heartRate_normal_iff_low:
  "(classifyHeartRate h = ''normal'' \<longleftrightarrow> assessHeartRateRisk h = ''low'') \<and>
   (classifyHeartRate (Num r) = ''normal'' \<longleftrightarrow> 60 \<le> r \<and> r \<le> 100) \<and>
   (assessHeartRateRisk (Num r) = ''low'' \<longleftrightarrow> 60 \<le> r \<and> r \<le> 100)"
  by (cases h) (auto simp add: classifyHeartRate_def assessHeartRateRisk_def js_gt_def)

section \<open>The trend estimator\<close>

text \<open>
  Claim C2. When the values that are neither \<open>null\<close> nor \<open>undefined\<close> are \<open>vs\<close>
  and there are at least two of them, the slope is the estimator
  \<open>(n \<Sigma>xy - \<Sigma>x \<Sigma>y) / (n \<Sigma>x\<^sup>2 - (\<Sigma>x)\<^sup>2)\<close> over the indices \<open>0..n-1\<close> and these values,
  evaluated in the arithmetic of the program; the change is the last value less the
  first; and the direction is \<open>increasing\<close> exactly when the slope is greater than the
  number the source writes 0.1, \<open>decreasing\<close> exactly when it is less than the negative
  of that number, and \<open>stable\<close> otherwise. The series 10, 20, 30 has slope 10,
  direction \<open>increasing\<close> and change 20; the series 30, 20, 10 has slope -10, direction
  \<open>decreasing\<close> and change -20.
\<close>

theorem calculateTrend_regression:
  "(filter (\<lambda>v. v \<noteq> Null \<and> v \<noteq> Undefined) (map (\<lambda>d. getProp d key) data) = vs \<and>
    2 \<le> length vs \<longrightarrow>
      slope (calculateTrend data key) = formulaSlope (map toNumber vs) \<and>
      change (calculateTrend data key) =
        Some (js_sub (toNumber (vs ! (length vs - 1))) (toNumber (vs ! 0))) \<and>
      (direction (calculateTrend data key) = ''increasing''
         \<longleftrightarrow> js_gt (slope (calculateTrend data key)) (Num lit_0_1)) \<and>
      (direction (calculateTrend data key) = ''decreasing''
         \<longleftrightarrow> js_lt (slope (calculateTrend data key)) (Num (- lit_0_1))) \<and>
      (direction (calculateTrend data key) = ''stable''
         \<longleftrightarrow> \<not> js_gt (slope (calculateTrend data key)) (Num lit_0_1) \<and>
              \<not> js_lt (slope (calculateTrend data key)) (Num (- lit_0_1)))) \<and>
   calculateTrend (series k (numbers [10, 20, 30])) k =
     \<lparr>direction = ''increasing'', slope = Num 10, change = Some (Num 20)\<rparr> \<and>
   calculateTrend (series k (numbers [30, 20, 10])) k =
     \<lparr>direction = ''decreasing'', slope = Num (- 10), change = Some (Num (- 20))\<rparr>"
proof (intro conjI impI)
  assume a: "filter (\<lambda>v. v \<noteq> Null \<and> v \<noteq> Undefined) (map (\<lambda>d. getProp d key) data) = vs \<and>
    2 \<le> length vs"
  then have v: "trendValues data key = vs" and n: "2 \<le> length (trendValues data key)"
    by (simp_all add: trendValues_def)
  note t = calculateTrend_many [OF n]
  show "slope (calculateTrend data key) = formulaSlope (map toNumber vs)"
    by (simp add: t slope_formula) (simp add: v)
  show "change (calculateTrend data key) =
        Some (js_sub (toNumber (vs ! (length vs - 1))) (toNumber (vs ! 0)))"
    by (simp add: t) (simp add: v)
  show "direction (calculateTrend data key) = ''increasing''
         \<longleftrightarrow> js_gt (slope (calculateTrend data key)) (Num lit_0_1)"
    by (simp add: t trendDirection_cases)
  show "direction (calculateTrend data key) = ''decreasing''
         \<longleftrightarrow> js_lt (slope (calculateTrend data key)) (Num (- lit_0_1))"
    by (simp add: t trendDirection_cases)
  show "direction (calculateTrend data key) = ''stable''
         \<longleftrightarrow> \<not> js_gt (slope (calculateTrend data key)) (Num lit_0_1) \<and>
              \<not> js_lt (slope (calculateTrend data key)) (Num (- lit_0_1))"
    by (simp add: t trendDirection_cases)
next
  have n: "2 \<le> length (trendValues (series k (numbers [10, 20, 30])) k)"
    by simp
  have s: "formulaSlope (map toNumber (numbers [10, 20, 30])) = Num 10"
    by (simp add: numbers_def formulaSlope_rising)
  show "calculateTrend (series k (numbers [10, 20, 30])) k =
     \<lparr>direction = ''increasing'', slope = Num 10, change = Some (Num 20)\<rparr>"
    by (simp add: calculateTrend_formula [OF n] s trendDirection_def lit_0_1_def)
       (simp add: numbers_def js_sub_def)
next
  have n: "2 \<le> length (trendValues (series k (numbers [30, 20, 10])) k)"
    by simp
  have s: "formulaSlope (map toNumber (numbers [30, 20, 10])) = Num (- 10)"
    by (simp add: numbers_def formulaSlope_falling)
  show "calculateTrend (series k (numbers [30, 20, 10])) k =
     \<lparr>direction = ''decreasing'', slope = Num (- 10), change = Some (Num (- 20))\<rparr>"
    by (simp add: calculateTrend_formula [OF n] s trendDirection_def lit_0_1_def)
       (simp add: numbers_def js_sub_def)
qed

theorem calculateTrend_regression_witness:
  "filter (\<lambda>v. v \<noteq> Null \<and> v \<noteq> Undefined)
     (map (\<lambda>d. getProp d ''value'')
        [[''value'' \<mapsto> Number (Num 72)], [''value'' \<mapsto> Null], [''value'' \<mapsto> Number (Num 75)],
         Map.empty, [''value'' \<mapsto> Number (Num 70)]]) = numbers [72, 75, 70] \<and>
   2 \<le> length (numbers [72, 75, 70]) \<and>
   slope (calculateTrend
     [[''value'' \<mapsto> Number (Num 72)], [''value'' \<mapsto> Null], [''value'' \<mapsto> Number (Num 75)],
      Map.empty, [''value'' \<mapsto> Number (Num 70)]] ''value'') = Num (- 1) \<and>
   direction (calculateTrend
     [[''value'' \<mapsto> Number (Num 72)], [''value'' \<mapsto> Null], [''value'' \<mapsto> Number (Num 75)],
      Map.empty, [''value'' \<mapsto> Number (Num 70)]] ''value'') = ''decreasing'' \<and>
   change (calculateTrend
     [[''value'' \<mapsto> Number (Num 72)], [''value'' \<mapsto> Null], [''value'' \<mapsto> Number (Num 75)],
      Map.empty, [''value'' \<mapsto> Number (Num 70)]] ''value'') = Some (Num (- 2))"
proof -
  have f: "filter (\<lambda>v. v \<noteq> Null \<and> v \<noteq> Undefined)
     (map (\<lambda>d. getProp d ''value'')
        [[''value'' \<mapsto> Number (Num 72)], [''value'' \<mapsto> Null], [''value'' \<mapsto> Number (Num 75)],
         Map.empty, [''value'' \<mapsto> Number (Num 70)]]) = numbers [72, 75, 70]"
    by (simp add: getProp_def numbers_def)
  have s: "formulaSlope (map toNumber (numbers [72, 75, 70])) = Num (- 1)"
    by (simp add: numbers_def formulaSlope_history)
  have h: "filter (\<lambda>v. v \<noteq> Null \<and> v \<noteq> Undefined)
     (map (\<lambda>d. getProp d ''value'')
        [[''value'' \<mapsto> Number (Num 72)], [''value'' \<mapsto> Null], [''value'' \<mapsto> Number (Num 75)],
         Map.empty, [''value'' \<mapsto> Number (Num 70)]]) = numbers [72, 75, 70] \<and>
     2 \<le> length (numbers [72, 75, 70])"
    using f by simp
  define t where "t = calculateTrend
     [[''value'' \<mapsto> Number (Num 72)], [''value'' \<mapsto> Null], [''value'' \<mapsto> Number (Num 75)],
      Map.empty, [''value'' \<mapsto> Number (Num 70)]] ''value''"
  from calculateTrend_regression
      [of "''value''" "[[''value'' \<mapsto> Number (Num 72)], [''value'' \<mapsto> Null],
           [''value'' \<mapsto> Number (Num 75)], Map.empty, [''value'' \<mapsto> Number (Num 70)]]"
          "numbers [72, 75, 70]" "''value''", THEN conjunct1, THEN mp, OF h]
  have c1: "slope t = formulaSlope (map toNumber (numbers [72, 75, 70]))"
    and c2: "change t = Some (js_sub (toNumber (numbers [72, 75, 70] ! (length (numbers [72, 75, 70]) - 1)))
                                     (toNumber (numbers [72, 75, 70] ! 0)))"
    and c3: "direction t = ''decreasing'' \<longleftrightarrow> js_lt (slope t) (Num (- lit_0_1))"
    unfolding t_def by blast+
  have "slope t = Num (- 1)" using c1 s by simp
  moreover have "direction t = ''decreasing''"
    using c3 c1 s by (simp add: lit_0_1_def)
  moreover have "change t = Some (Num (- 2))"
    using c2 by (simp add: numbers_def js_sub_def)
  ultimately show ?thesis using h unfolding t_def by blast
qed

text \<open>
  Claim C3. When fewer than two objects of the series have a value that is neither
  \<open>null\<close> nor \<open>undefined\<close>, the result is the direction \<open>stable\<close>, the slope
  0 and no change; so it is for the empty series and for the series of the one value 5.
\<close>

theorem calculateTrend_insufficient_data:
  "(length (filter (\<lambda>d. getProp d key \<noteq> Null \<and> getProp d key \<noteq> Undefined) data) < 2 \<longrightarrow>
      calculateTrend data key = \<lparr>direction = ''stable'', slope = Num 0, change = None\<rparr>) \<and>
   calculateTrend [] key = \<lparr>direction = ''stable'', slope = Num 0, change = None\<rparr> \<and>
   calculateTrend (series key (numbers [5])) key =
     \<lparr>direction = ''stable'', slope = Num 0, change = None\<rparr>"
  by (simp add: calculateTrend_def Let_def trendValues_count [symmetric])
     (simp add: trendValues_def)

theorem calculateTrend_insufficient_data_witness:
  "length (filter (\<lambda>d. getProp d ''value'' \<noteq> Null \<and> getProp d ''value'' \<noteq> Undefined)
      [[''value'' \<mapsto> Null], [''value'' \<mapsto> Number (Num 7)], Map.empty]) < 2 \<and>
   calculateTrend [[''value'' \<mapsto> Null], [''value'' \<mapsto> Number (Num 7)], Map.empty] ''value'' =
     \<lparr>direction = ''stable'', slope = Num 0, change = None\<rparr>"
  using calculateTrend_insufficient_data
    [of "''value''" "[[''value'' \<mapsto> Null], [''value'' \<mapsto> Number (Num 7)], Map.empty]"]
  by (simp add: getProp_def)

text \<open>
  Claim C9. Every classifier and every risk assessment returns one of its labels for
  every number, the infinities and NaN too, and the trend has one of the three
  directions for every series. When the values that are neither \<open>null\<close> nor
  \<open>undefined\<close> are at least two (and fewer than \<open>2\<^sup>3\<^sup>2\<close>, as in every array), the
  divisor \<open>n \<Sigma>x\<^sup>2 - (\<Sigma>x)\<^sup>2\<close> that the program computes is a positive finite number, and
  the slope is the quotient by it.
\<close>

theorem classification_and_trend_total:
  "classifyBloodPressure s d \<in> {''crisis'', ''high'', ''elevated'', ''normal''} \<and>
   assessBloodPressureRisk s d \<in> {''critical'', ''high'', ''moderate'', ''elevated'', ''low''} \<and>
   classifyHeartRate v \<in> {''bradycardia'', ''tachycardia'', ''normal''} \<and>
   assessHeartRateRisk v \<in> {''critical'', ''high'', ''moderate'', ''low''} \<and>
   classifyTemperature v \<in> {''highFever'', ''fever'', ''normal''} \<and>
   assessTemperatureRisk v \<in> {''critical'', ''high'', ''moderate'', ''low''} \<and>
   classifyOxygenSaturation v \<in> {''critical'', ''low'', ''normal''} \<and>
   assessOxygenRisk v \<in> {''critical'', ''high'', ''moderate'', ''low''} \<and>
   direction (calculateTrend data key) \<in> {''increasing'', ''decreasing'', ''stable''} \<and>
   (length data < 2 ^ 32 \<and>
    filter (\<lambda>v. v \<noteq> Null \<and> v \<noteq> Undefined) (map (\<lambda>d. getProp d key) data) = vs \<and>
    2 \<le> length vs \<longrightarrow>
      (\<exists>den. slopeDenominator (length vs) = Num den \<and> 0 < den) \<and>
      slope (calculateTrend data key) =
        js_div (slopeNumerator vs) (slopeDenominator (length vs)))"
proof (intro conjI impI)
  show "direction (calculateTrend data key) \<in> {''increasing'', ''decreasing'', ''stable''}"
    using trendDirection_label by (simp add: calculateTrend_def Let_def)
next
  assume a: "length data < 2 ^ 32 \<and>
    filter (\<lambda>v. v \<noteq> Null \<and> v \<noteq> Undefined) (map (\<lambda>d. getProp d key) data) = vs \<and>
    2 \<le> length vs"
  then have v: "trendValues data key = vs" and n: "2 \<le> length (trendValues data key)"
    by (simp_all add: trendValues_def)
  have "length vs \<le> length data"
    using a by (metis length_filter_le length_map)
  with a have n32: "length vs < 2 ^ 32" by linarith
  have n2: "2 \<le> length vs" using a by simp
  show "\<exists>den. slopeDenominator (length vs) = Num den \<and> 0 < den"
    by (rule slopeDenominator_positive [OF n2 n32])
  show "slope (calculateTrend data key) =
        js_div (slopeNumerator vs) (slopeDenominator (length vs))"
    by (simp add: calculateTrend_many [OF n]) (simp add: v)
qed (simp_all add: classifyBloodPressure_def assessBloodPressureRisk_def classifyHeartRate_def
      assessHeartRateRisk_def classifyTemperature_def assessTemperatureRisk_def
      classifyOxygenSaturation_def assessOxygenRisk_def)

theorem classification_and_trend_total_witness:
  "length [[''value'' \<mapsto> Number (Num 72)], [''value'' \<mapsto> Null],
           [''value'' \<mapsto> Number (Num 75)], Map.empty, [''value'' \<mapsto> Number (Num 70)]]
     < (2::nat) ^ 32 \<and>
   filter (\<lambda>v. v \<noteq> Null \<and> v \<noteq> Undefined)
     (map (\<lambda>d. getProp d ''value'')
        [[''value'' \<mapsto> Number (Num 72)], [''value'' \<mapsto> Null], [''value'' \<mapsto> Number (Num 75)],
         Map.empty, [''value'' \<mapsto> Number (Num 70)]]) = numbers [72, 75, 70] \<and>
   2 \<le> length (numbers [72, 75, 70]) \<and>
   (\<exists>den. slopeDenominator (length (numbers [72, 75, 70])) = Num den \<and> 0 < den) \<and>
   slopeDenominator 3 = Num 6"
proof -
  have f: "filter (\<lambda>v. v \<noteq> Null \<and> v \<noteq> Undefined)
     (map (\<lambda>d. getProp d ''value'')
        [[''value'' \<mapsto> Number (Num 72)], [''value'' \<mapsto> Null], [''value'' \<mapsto> Number (Num 75)],
         Map.empty, [''value'' \<mapsto> Number (Num 70)]]) = numbers [72, 75, 70]"
    by (simp add: getProp_def numbers_def)
  have d: "slopeDenominator 3 = Num 6"
    by (simp add: slopeDenominator_def sumX_def sumX2_def indices_def js_sub_def eval_nat_numeral)
  have "length [[''value'' \<mapsto> Number (Num 72)], [''value'' \<mapsto> Null],
           [''value'' \<mapsto> Number (Num 75)], Map.empty, [''value'' \<mapsto> Number (Num 70)]]
          < (2::nat) ^ 32 \<and>
        filter (\<lambda>v. v \<noteq> Null \<and> v \<noteq> Undefined)
          (map (\<lambda>d. getProp d ''value'')
            [[''value'' \<mapsto> Number (Num 72)], [''value'' \<mapsto> Null],
             [''value'' \<mapsto> Number (Num 75)], Map.empty, [''value'' \<mapsto> Number (Num 70)]])
          = numbers [72, 75, 70] \<and>
        2 \<le> length (numbers [72, 75, 70]) \<longrightarrow>
        (\<exists>den. slopeDenominator (length (numbers [72, 75, 70])) = Num den \<and> 0 < den) \<and>
        slope (calculateTrend [[''value'' \<mapsto> Number (Num 72)], [''value'' \<mapsto> Null],
             [''value'' \<mapsto> Number (Num 75)], Map.empty, [''value'' \<mapsto> Number (Num 70)]]
             ''value'') =
          js_div (slopeNumerator (numbers [72, 75, 70]))
            (slopeDenominator (length (numbers [72, 75, 70])))"
    using classification_and_trend_total
      [of "Num 120" "Num 80" "Num 72" "[[''value'' \<mapsto> Number (Num 72)], [''value'' \<mapsto> Null],
           [''value'' \<mapsto> Number (Num 75)], Map.empty, [''value'' \<mapsto> Number (Num 70)]]"
          "''value''" "numbers [72, 75, 70]"]
    by (elim conjE)
  then show ?thesis
    using f d by simp
qed

section \<open>The table of thresholds\<close>

text \<open>
  The ranges of the table overlap and leave gaps, and none is open-ended: 70 lies
  strictly between the ends of the diastolic ranges of two bands; no systolic range
  covers 129.5, 301 or 85; no temperature range covers 99.05 or 107; no heart-rate range
  covers 201, and no oxygen range covers a value below 0.
\<close>

theorem thresholds_overlap_and_gaps:
  "bandsStrictlyCovering (diastolicBands initializeHealthThresholds) 70 = [''normal'', ''elevated''] \<and>
   bandsCovering (systolicBands initializeHealthThresholds) 129.5 = [] \<and>
   bandsCovering (systolicBands initializeHealthThresholds) 301 = [] \<and>
   bandsCovering (systolicBands initializeHealthThresholds) 85 = [] \<and>
   bandsCovering (temperature initializeHealthThresholds) 99.05 = [] \<and>
   bandsCovering (temperature initializeHealthThresholds) 107 = [] \<and>
   bandsCovering (heartRate initializeHealthThresholds) 201 = [] \<and>
   bandsCovering (oxygenSaturation initializeHealthThresholds) (- 1) = []"
  by (simp add: initializeHealthThresholds_def systolicBands_def diastolicBands_def
      bandsCovering_def bandsStrictlyCovering_def covers_def coversStrictly_def
      lit_97_8_def lit_99_1_def lit_103_1_def)

text \<open>
  Claim C8, amended. Every band of the table is a range between two finite ends. The
  heart-rate ranges cover exactly 0 to 200 and the oxygen ranges exactly 0 to 100; taken
  by ascending lower end they are contiguous, and no value lies strictly inside two of
  them. The temperature ranges and the systolic ranges have no value strictly inside two
  of them either, but they leave gaps: they cover 97.8 to 99, 99.1 to 103 and 103.1 to
  106, and 90 to 129 and 130 to 300. The diastolic ranges cover exactly 60 to 200, and
  those of \<open>normal\<close> and \<open>elevated\<close> are the same range 60 to 80.
\<close>

theorem thresholds_table_shape:
  "(bandsCovering (heartRate initializeHealthThresholds) x \<noteq> [] \<longleftrightarrow> 0 \<le> x \<and> x \<le> 200) \<and>
   (bandsCovering (oxygenSaturation initializeHealthThresholds) x \<noteq> [] \<longleftrightarrow> 0 \<le> x \<and> x \<le> 100) \<and>
   (bandsCovering (temperature initializeHealthThresholds) x \<noteq> [] \<longleftrightarrow>
      (lit_97_8 \<le> x \<and> x \<le> 99) \<or> (lit_99_1 \<le> x \<and> x \<le> 103) \<or> (lit_103_1 \<le> x \<and> x \<le> 106)) \<and>
   (bandsCovering (systolicBands initializeHealthThresholds) x \<noteq> [] \<longleftrightarrow>
      (90 \<le> x \<and> x \<le> 129) \<or> (130 \<le> x \<and> x \<le> 300)) \<and>
   (bandsCovering (diastolicBands initializeHealthThresholds) x \<noteq> [] \<longleftrightarrow> 60 \<le> x \<and> x \<le> 200) \<and>
   length (bandsStrictlyCovering (heartRate initializeHealthThresholds) x) \<le> 1 \<and>
   length (bandsStrictlyCovering (oxygenSaturation initializeHealthThresholds) x) \<le> 1 \<and>
   length (bandsStrictlyCovering (temperature initializeHealthThresholds) x) \<le> 1 \<and>
   length (bandsStrictlyCovering (systolicBands initializeHealthThresholds) x) \<le> 1 \<and>
   contiguous (ascending (heartRate initializeHealthThresholds)) \<and>
   contiguous (ascending (oxygenSaturation initializeHealthThresholds)) \<and>
   separated (ascending (temperature initializeHealthThresholds)) \<and>
   separated (ascending (systolicBands initializeHealthThresholds)) \<and>
   map_of (diastolicBands initializeHealthThresholds) ''normal'' = Some (60, 80) \<and>
   map_of (diastolicBands initializeHealthThresholds) ''elevated'' = Some (60, 80)"
  by (auto simp add: initializeHealthThresholds_def systolicBands_def diastolicBands_def
      bandsCovering_def bandsStrictlyCovering_def covers_def coversStrictly_def ascending_def
      lit_97_8_def lit_99_1_def lit_103_1_def)

end
